theory Spec2Isabelle
  imports Complex_Main
begin

section \<open>Differential growth step: the embedding of \<open>op_grow.py\<close>\<close>

text \<open>
  One simulation step (\<open>grow_step\<close>) collects the vertices with positive growth weight
  and their incident edges, moves every collected vertex by a weighted force, raises every
  weight of the mesh to the decay exponent and finally hands the collected edges that
  exceed the weight-conditioned length threshold to the host's subdivision primitive.

  Numbers: Python floats and the components of \<open>mathutils.Vector\<close> are modelled as
  \<open>real\<close>, that is, exact arithmetic; rounding and range errors (\<open>OverflowError\<close>) of
  floating point are outside the model. Everything Python raises on exact arguments
  (division by zero, a power with no real value, a negative query radius, a negative
  vertex-group index on a write) is a value of type \<open>error\<close>, and every function that can
  raise returns \<open>error + 'a\<close>.
\<close>

subsection \<open>Errors\<close>

datatype error = ZeroDivisionError | TypeError | RuntimeError | KeyError

subsection \<open>Vectors (\<open>mathutils.Vector\<close>, three components)\<close>

datatype vec = Vector (vx: real) (vy: real) (vz: real)

instantiation vec :: ab_group_add
begin

definition zero_vec_def: "0 = Vector 0 0 0"

definition plus_vec_def: "u + v = Vector (vx u + vx v) (vy u + vy v) (vz u + vz v)"

definition minus_vec_def: "u - v = Vector (vx u - vx v) (vy u - vy v) (vz u - vz v)"

definition uminus_vec_def: "- u = Vector (- vx u) (- vy u) (- vz u)"

instance
  by standard
    (simp_all add: zero_vec_def plus_vec_def minus_vec_def uminus_vec_def vec.expand)

end

text \<open>\<open>Vector * float\<close> and \<open>float * Vector\<close>: every component is scaled.\<close>

definition smul :: "real \<Rightarrow> vec \<Rightarrow> vec" where
  "smul c v = Vector (c * vx v) (c * vy v) (c * vz v)"

text \<open>\<open>Vector.length\<close>, the Euclidean norm.\<close>

definition vlen :: "vec \<Rightarrow> real" where
  "vlen v = sqrt (vx v * vx v + vy v * vy v + vz v * vz v)"

text \<open>
  \<open>Vector.normalized()\<close>: a copy scaled to length 1. The library leaves a vector whose
  components are all zero as it is (it neither raises nor divides).
\<close>

definition normalized :: "vec \<Rightarrow> vec" where
  "normalized v = (if vlen v = 0 then 0 else smul (1 / vlen v) v)"

subsection \<open>Python's float power\<close>

text \<open>
  \<open>v ** w\<close> on floats: any base to the power 0 is 1; base 0 raises
  \<open>ZeroDivisionError\<close> for a negative exponent and gives 0 for a positive one; a negative
  base has a real value only for an integral exponent (otherwise Python produces a complex
  number, which a weight layer of floats rejects: \<open>TypeError\<close>). The weights the step
  reads are never negative, so that last case is not reached from \<open>grow_step\<close>.
\<close>

definition py_pow :: "real \<Rightarrow> real \<Rightarrow> error + real" where
  "py_pow v w =
     (if w = 0 then Inr 1
      else if v = 0 then (if w < 0 then Inl ZeroDivisionError else Inr 0)
      else if v < 0 then
        (if of_int \<lfloor>w\<rfloor> = w then Inr (v powi \<lfloor>w\<rfloor>) else Inl TypeError)
      else Inr (v powr w))"

subsection \<open>The mesh\<close>

text \<open>
  A stored weight is a number between 0 and 1: the host's deform-vertex mapping clamps
  every value written to it (\<open>clamp_weight\<close>) and holds nothing else.
\<close>

typedef weight = "{x :: real. 0 \<le> x \<and> x \<le> 1}"
  morphisms weight_val make_weight
  by (rule exI [of _ 0]) simp

setup_lifting type_definition_weight

lift_definition clamp_weight :: "real \<Rightarrow> weight" is "\<lambda>x. min 1 (max 0 x)"
  by simp

text \<open>
  A vertex carries its position \<open>co\<close> and its entry of the active deform layer: a
  mapping from vertex-group index to stored weight, read and written by the source with
  \<open>in\<close>, \<open>[]\<close> and \<open>[] =\<close>. Every mesh of the model has its active deform layer; the
  source takes the layer without a check, and a mesh without one (an object whose vertices
  were never assigned to a group) is outside the model. The identity of a vertex
  (\<open>vert.index\<close>, the number under which it enters the spatial index) is its place in
  \<open>bm.verts\<close>; an edge is the pair of its endpoints and is identified by its place in
  \<open>bm.edges\<close>.
\<close>

record vert =
  co :: vec
  weights :: "int \<rightharpoonup> weight"

record bmesh =
  verts :: "vert list"
  edges :: "(nat \<times> nat) list"

text \<open>Every edge joins two vertices of the mesh.\<close>

definition wf_mesh :: "bmesh \<Rightarrow> bool" where
  "wf_mesh bm = (\<forall>e \<in> set (edges bm). fst e < length (verts bm) \<and> snd e < length (verts bm))"

definition get_vertex_weight :: "bmesh \<Rightarrow> nat \<Rightarrow> int \<Rightarrow> real" where
  "get_vertex_weight bm v group_index =
     (case weights (verts bm ! v) group_index of Some w \<Rightarrow> weight_val w | None \<Rightarrow> 0)"

text \<open>
  \<open>weights[group_index] = weight\<close> on the host's mapping: a negative group index (no
  active vertex group) is refused with \<open>KeyError\<close>, and the value is clamped to the range
  from 0 to 1 before it is stored.
\<close>

definition set_vertex_weight :: "bmesh \<Rightarrow> nat \<Rightarrow> int \<Rightarrow> real \<Rightarrow> error + bmesh" where
  "set_vertex_weight bm v group_index weight =
     (if group_index < 0 then Inl KeyError
      else Inr (bm\<lparr>verts := (verts bm)[v := (verts bm ! v)
                  \<lparr>weights := (weights (verts bm ! v))(group_index \<mapsto> clamp_weight weight)\<rparr>]\<rparr>))"

text \<open>\<open>vert.co += offset\<close>.\<close>

definition move_vert :: "bmesh \<Rightarrow> nat \<Rightarrow> vec \<Rightarrow> bmesh" where
  "move_vert bm v offset =
     bm\<lparr>verts := (verts bm)[v := (verts bm ! v)\<lparr>co := co (verts bm ! v) + offset\<rparr>]\<rparr>"

text \<open>\<open>vert.link_edges\<close>: the edges that have the vertex as an endpoint.\<close>

definition link_edges :: "bmesh \<Rightarrow> nat \<Rightarrow> nat list" where
  "link_edges bm v =
     filter (\<lambda>e. fst (edges bm ! e) = v \<or> snd (edges bm ! e) = v) [0..<length (edges bm)]"

text \<open>\<open>edge.other_vert(vert)\<close>: \<open>None\<close> when the vertex is not on the edge.\<close>

definition other_vert :: "bmesh \<Rightarrow> nat \<Rightarrow> nat \<Rightarrow> nat option" where
  "other_vert bm e v =
     (if fst (edges bm ! e) = v then Some (snd (edges bm ! e))
      else if snd (edges bm ! e) = v then Some (fst (edges bm ! e))
      else None)"

definition calc_length :: "bmesh \<Rightarrow> nat \<Rightarrow> real" where
  "calc_length bm e = vlen (co (verts bm ! fst (edges bm ! e)) - co (verts bm ! snd (edges bm ! e)))"

fun edge_weight_sum :: "bmesh \<Rightarrow> int \<Rightarrow> nat list \<Rightarrow> real \<times> nat \<Rightarrow> real \<times> nat" where
  "edge_weight_sum bm group_index [] (s, n) = (s, n)"
| "edge_weight_sum bm group_index (e # es) (s, n) =
     edge_weight_sum bm group_index es
       (s + get_vertex_weight bm (fst (edges bm ! e)) group_index
          + get_vertex_weight bm (snd (edges bm ! e)) group_index, n + 2)"

definition calc_avg_edge_weight :: "bmesh \<Rightarrow> nat list \<Rightarrow> int \<Rightarrow> error + real" where
  "calc_avg_edge_weight bm es group_index =
     (case edge_weight_sum bm group_index es (0, 0) of
        (s, n) \<Rightarrow> if n = 0 then Inl ZeroDivisionError else Inr (s / real n))"

subsection \<open>Forces\<close>

fun attraction_loop :: "bmesh \<Rightarrow> nat \<Rightarrow> nat list \<Rightarrow> vec \<Rightarrow> vec" where
  "attraction_loop bm v [] result = result"
| "attraction_loop bm v (e # es) result =
     (case other_vert bm e v of
        None \<Rightarrow> attraction_loop bm v es result
      | Some other \<Rightarrow>
          attraction_loop bm v es (result + (co (verts bm ! other) - co (verts bm ! v))))"

definition calc_vert_attraction :: "bmesh \<Rightarrow> nat \<Rightarrow> vec" where
  "calc_vert_attraction bm v = attraction_loop bm v (link_edges bm v) 0"

text \<open>
  The spatial index holds the positions inserted under their numbers: \<open>kd ! i\<close> is the
  point inserted as \<open>i\<close>. \<open>find_range\<close> yields \<open>(co, index, distance)\<close> for every point
  within the radius and refuses a negative radius. (The library orders the hits by
  distance; the model lists them by index, which the sum below cannot tell apart in exact
  arithmetic.)
\<close>

type_synonym kdtree = "vec list"

definition find_range :: "kdtree \<Rightarrow> vec \<Rightarrow> real \<Rightarrow> error + (vec \<times> nat \<times> real) list" where
  "find_range kd c radius =
     (if radius < 0 then Inl RuntimeError
      else Inr (filter (\<lambda>(p, i, d). d \<le> radius)
                  (map (\<lambda>i. (kd ! i, i, vlen (kd ! i - c))) [0..<length kd])))"

fun repulsion_loop :: "bmesh \<Rightarrow> nat \<Rightarrow> real \<Rightarrow> (vec \<times> nat \<times> real) list \<Rightarrow> vec \<Rightarrow> vec" where
  "repulsion_loop bm v radius [] result = result"
| "repulsion_loop bm v radius ((c, index, distance) # hits) result =
     (if index = v then repulsion_loop bm v radius hits result
      else
        (let direction = normalized (co (verts bm ! v) - c);
             magnitude = exp (distance - radius)
         in repulsion_loop bm v radius hits (result + smul magnitude direction)))"

definition calc_vert_repulsion :: "bmesh \<Rightarrow> nat \<Rightarrow> kdtree \<Rightarrow> real \<Rightarrow> error + vec" where
  "calc_vert_repulsion bm v kd radius =
     (case find_range kd (co (verts bm ! v)) (radius * 2) of
        Inl err \<Rightarrow> Inl err
      | Inr hits \<Rightarrow> Inr (repulsion_loop bm v radius hits 0))"

subsection \<open>The step\<close>

record settings =
  seed :: real
  collision_radius :: real
  split_radius :: real
  dt :: real
  weight_decay :: real
  noise_scale :: real
  fac_attr :: real
  fac_rep :: real
  fac_noise :: real

text \<open>
  Collecting (lines 54 to 62): the vertices with positive weight, in mesh order, and the
  set of their incident edges. The Python set is a list without repetition here; its
  iteration order is not fixed by Python, and nothing below depends on it.
\<close>

fun add_edges :: "nat list \<Rightarrow> nat list \<Rightarrow> nat list" where
  "add_edges [] acc = acc"
| "add_edges (e # es) acc = add_edges es (if e \<in> set acc then acc else acc @ [e])"

fun collect_loop :: "bmesh \<Rightarrow> int \<Rightarrow> nat list \<Rightarrow> nat list \<times> nat list \<Rightarrow> nat list \<times> nat list" where
  "collect_loop bm group_index [] (vs, es) = (vs, es)"
| "collect_loop bm group_index (v # rest) (vs, es) =
     (if get_vertex_weight bm v group_index > 0
      then collect_loop bm group_index rest (vs @ [v], add_edges (link_edges bm v) es)
      else collect_loop bm group_index rest (vs, es))"

definition collect :: "bmesh \<Rightarrow> int \<Rightarrow> nat list \<times> nat list" where
  "collect bm group_index = collect_loop bm group_index [0..<length (verts bm)] ([], [])"

text \<open>
  The force loop (lines 70 to 83). \<open>noise_vector\<close> is the host's coherent noise field,
  a parameter of the model.
\<close>

fun calc_forces ::
  "(vec \<Rightarrow> vec) \<Rightarrow> int \<Rightarrow> settings \<Rightarrow> kdtree \<Rightarrow> nat list \<Rightarrow> bmesh \<Rightarrow> error + bmesh" where
  "calc_forces noise_vector group_index P kd [] bm = Inr bm"
| "calc_forces noise_vector group_index P kd (v # vs) bm =
     (let weight = get_vertex_weight bm v group_index in
      if weight = 0 then calc_forces noise_vector group_index P kd vs bm
      else
        (let f_attr = calc_vert_attraction bm v in
         case calc_vert_repulsion bm v kd (collision_radius P) of
           Inl err \<Rightarrow> Inl err
         | Inr f_rep \<Rightarrow>
             (let seed_vector = smul (seed P) (Vector 0 0 1);
                  f_noise = noise_vector (smul (noise_scale P) (co (verts bm ! v)) + seed_vector);
                  force = smul (fac_attr P) f_attr + smul (fac_rep P) f_rep
                            + smul (fac_noise P) f_noise;
                  offset = smul weight (smul (dt P) (smul (dt P) force))
              in calc_forces noise_vector group_index P kd vs (move_vert bm v offset))))"

text \<open>The decay loop (lines 86 to 89).\<close>

fun readjust_weights :: "int \<Rightarrow> real \<Rightarrow> nat list \<Rightarrow> bmesh \<Rightarrow> error + bmesh" where
  "readjust_weights group_index wd [] bm = Inr bm"
| "readjust_weights group_index wd (v # vs) bm =
     (case py_pow (get_vertex_weight bm v group_index) wd of
        Inl err \<Rightarrow> Inl err
      | Inr w \<Rightarrow>
          (case set_vertex_weight bm v group_index w of
             Inl err \<Rightarrow> Inl err
           | Inr bm' \<Rightarrow> readjust_weights group_index wd vs bm'))"

text \<open>
  The selection loop (lines 92 to 99). \<open>l / split_radius\<close> is evaluated before
  \<open>1 / avg_weight\<close> and raises when the split radius is 0.
\<close>

definition exceeds_threshold :: "real \<Rightarrow> real \<Rightarrow> real \<Rightarrow> bool" where
  "exceeds_threshold l sr avg_weight = ((l / sr) > (1 / avg_weight))"

fun select_edges :: "bmesh \<Rightarrow> int \<Rightarrow> real \<Rightarrow> nat list \<Rightarrow> nat list \<Rightarrow> error + nat list" where
  "select_edges bm group_index sr [] acc = Inr acc"
| "select_edges bm group_index sr (e # es) acc =
     (case calc_avg_edge_weight bm [e] group_index of
        Inl err \<Rightarrow> Inl err
      | Inr avg_weight \<Rightarrow>
          if avg_weight = 0 then select_edges bm group_index sr es acc
          else if sr = 0 then Inl ZeroDivisionError
          else if exceeds_threshold (calc_length bm e) sr avg_weight
          then select_edges bm group_index sr es (acc @ [e])
          else select_edges bm group_index sr es acc)"

text \<open>The phases of \<open>grow_step\<close>, named so that the theorems can speak about them.\<close>

definition integrated :: "(vec \<Rightarrow> vec) \<Rightarrow> bmesh \<Rightarrow> int \<Rightarrow> settings \<Rightarrow> error + bmesh" where
  "integrated noise_vector bm group_index P =
     calc_forces noise_vector group_index P (map co (verts bm)) (fst (collect bm group_index)) bm"

definition decayed :: "(vec \<Rightarrow> vec) \<Rightarrow> bmesh \<Rightarrow> int \<Rightarrow> settings \<Rightarrow> error + bmesh" where
  "decayed noise_vector bm group_index P =
     (case integrated noise_vector bm group_index P of
        Inl err \<Rightarrow> Inl err
      | Inr bm1 \<Rightarrow> readjust_weights group_index (weight_decay P) [0..<length (verts bm1)] bm1)"

definition edges_to_subdivide :: "(vec \<Rightarrow> vec) \<Rightarrow> bmesh \<Rightarrow> int \<Rightarrow> settings \<Rightarrow> error + nat list" where
  "edges_to_subdivide noise_vector bm group_index P =
     (case decayed noise_vector bm group_index P of
        Inl err \<Rightarrow> Inl err
      | Inr bm2 \<Rightarrow> select_edges bm2 group_index (split_radius P) (snd (collect bm group_index)) [])"

text \<open>
  \<open>subdivide_edges\<close> is the host's primitive \<open>bmesh.ops.subdivide_edges\<close>, a parameter.
  It is called only when at least one edge was selected.
\<close>

definition grow_step ::
  "(bmesh \<Rightarrow> nat list \<Rightarrow> bmesh) \<Rightarrow> (vec \<Rightarrow> vec) \<Rightarrow> bmesh \<Rightarrow> int \<Rightarrow> settings \<Rightarrow> error + bmesh" where
  "grow_step subdivide_edges noise_vector bm group_index P =
     (case decayed noise_vector bm group_index P of
        Inl err \<Rightarrow> Inl err
      | Inr bm2 \<Rightarrow>
          (case select_edges bm2 group_index (split_radius P) (snd (collect bm group_index)) [] of
             Inl err \<Rightarrow> Inl err
           | Inr sub \<Rightarrow> if length sub > 0 then Inr (subdivide_edges bm2 sub) else Inr bm2))"

subsection \<open>The subdivision primitive\<close>

text \<open>
  Modelled from the spec: \<open>bmesh.ops.subdivide_edges\<close> belongs to the host and is a
  parameter of \<open>grow_step\<close>. The spec says of it that every selected edge receives one new
  vertex at (conceptually) its midpoint, that the edge is replaced by the two halves and
  that the new vertex inherits the interpolated weight of the two endpoints.
  \<open>midpoint_subdivide\<close> is that description, without the smoothing of the new position;
  it is the instance on which the theorems about an arbitrary primitive are tried.
  \<open>preserves_weights\<close> is the one assumption made about an arbitrary primitive: it leaves
  the weight entries of the vertices that exist already as they are.
\<close>

fun midpoint_subdivide :: "bmesh \<Rightarrow> nat list \<Rightarrow> bmesh" where
  "midpoint_subdivide bm [] = bm"
| "midpoint_subdivide bm (e # es) =
     (let a = fst (edges bm ! e); b = snd (edges bm ! e); n = length (verts bm);
          va = verts bm ! a; vb = verts bm ! b;
          new = \<lparr>co = smul (1 / 2) (co va + co vb),
                 weights = (\<lambda>k. if weights va k = None \<and> weights vb k = None then None
                                else Some (clamp_weight
                                  ((get_vertex_weight bm a k + get_vertex_weight bm b k) / 2)))\<rparr>
      in midpoint_subdivide
           (bm\<lparr>verts := verts bm @ [new], edges := (edges bm)[e := (a, n)] @ [(n, b)]\<rparr>) es)"

definition preserves_weights :: "(bmesh \<Rightarrow> nat list \<Rightarrow> bmesh) \<Rightarrow> bool" where
  "preserves_weights sub =
     (\<forall>bm es i. i < length (verts bm) \<longrightarrow> weights (verts (sub bm es) ! i) = weights (verts bm ! i))"

subsection \<open>Example meshes and settings\<close>

text \<open>
  Small meshes on which the step is evaluated, all with group index 0. \<open>mesh_a\<close>: an
  active vertex joined to a vertex without weight entry; \<open>mesh_b\<close>: an edge of length 2
  with both weights 1; \<open>mesh_c\<close>: no active vertex; \<open>mesh_d\<close>: two vertices at the same
  place; \<open>mesh_e\<close>: an edge of length 2 with both weights one half; \<open>mesh_h\<close>: an edge of
  length 1 with both weights one half, stepped with the exponent \<open>-1\<close>. The meshes
  named \<open>_moved\<close>, \<open>_stepped\<close>, \<open>_pulled\<close> and \<open>_ones\<close> are results of the step on them.
\<close>

definition no_noise :: "vec \<Rightarrow> vec" where
  "no_noise p = 0"

definition mesh_a :: bmesh where
  "mesh_a = \<lparr>verts = [\<lparr>co = Vector 0 0 0, weights = [0 \<mapsto> clamp_weight 1]\<rparr>,
                       \<lparr>co = Vector 1 0 0, weights = Map.empty\<rparr>],
             edges = [(0, 1)]\<rparr>"

definition settings_a :: settings where
  "settings_a = \<lparr>seed = 0, collision_radius = 1, split_radius = 1, dt = 1, weight_decay = 2,
                 noise_scale = 1, fac_attr = 1, fac_rep = 2, fac_noise = 0\<rparr>"

definition mesh_a_moved :: bmesh where
  "mesh_a_moved = \<lparr>verts = [\<lparr>co = Vector (- 1) 0 0, weights = [0 \<mapsto> clamp_weight 1]\<rparr>,
                             \<lparr>co = Vector 1 0 0, weights = Map.empty\<rparr>],
                   edges = [(0, 1)]\<rparr>"

definition mesh_a_stepped :: bmesh where
  "mesh_a_stepped = \<lparr>verts = [\<lparr>co = Vector (- 1) 0 0, weights = [0 \<mapsto> clamp_weight 1]\<rparr>,
                               \<lparr>co = Vector 1 0 0, weights = [0 \<mapsto> clamp_weight 0]\<rparr>],
                     edges = [(0, 1)]\<rparr>"

definition mesh_b :: bmesh where
  "mesh_b = \<lparr>verts = [\<lparr>co = Vector 0 0 0, weights = [0 \<mapsto> clamp_weight 1]\<rparr>,
                       \<lparr>co = Vector 2 0 0, weights = [0 \<mapsto> clamp_weight 1]\<rparr>],
             edges = [(0, 1)]\<rparr>"

definition settings_b :: settings where
  "settings_b = \<lparr>seed = 0, collision_radius = 1, split_radius = 1, dt = 1, weight_decay = 1,
                 noise_scale = 1, fac_attr = 0, fac_rep = 0, fac_noise = 0\<rparr>"

definition settings_f :: settings where
  "settings_f = \<lparr>seed = 0, collision_radius = 1, split_radius = 1, dt = 1, weight_decay = 1,
                 noise_scale = 1, fac_attr = 1, fac_rep = 0, fac_noise = 0\<rparr>"

definition mesh_b_pulled :: bmesh where
  "mesh_b_pulled = \<lparr>verts = [\<lparr>co = Vector 2 0 0, weights = [0 \<mapsto> clamp_weight 1]\<rparr>,
                              \<lparr>co = Vector 2 0 0, weights = [0 \<mapsto> clamp_weight 1]\<rparr>],
                    edges = [(0, 1)]\<rparr>"

definition mesh_c :: bmesh where
  "mesh_c = \<lparr>verts = [\<lparr>co = Vector 0 0 0, weights = [0 \<mapsto> clamp_weight 0]\<rparr>,
                       \<lparr>co = Vector 1 0 0, weights = Map.empty\<rparr>],
             edges = [(0, 1)]\<rparr>"

definition mesh_c_stepped :: bmesh where
  "mesh_c_stepped = \<lparr>verts = [\<lparr>co = Vector 0 0 0, weights = [0 \<mapsto> clamp_weight 0]\<rparr>,
                               \<lparr>co = Vector 1 0 0, weights = [0 \<mapsto> clamp_weight 0]\<rparr>],
                     edges = [(0, 1)]\<rparr>"

definition settings_c :: settings where
  "settings_c = \<lparr>seed = 0, collision_radius = 1, split_radius = 1 / 2, dt = 1, weight_decay = 0,
                 noise_scale = 1, fac_attr = 0, fac_rep = 0, fac_noise = 0\<rparr>"

definition mesh_c_ones :: bmesh where
  "mesh_c_ones = \<lparr>verts = [\<lparr>co = Vector 0 0 0, weights = [0 \<mapsto> clamp_weight 1]\<rparr>,
                            \<lparr>co = Vector 1 0 0, weights = [0 \<mapsto> clamp_weight 1]\<rparr>],
                  edges = [(0, 1)]\<rparr>"

definition mesh_d :: bmesh where
  "mesh_d = \<lparr>verts = [\<lparr>co = Vector 0 0 0, weights = [0 \<mapsto> clamp_weight 1]\<rparr>,
                       \<lparr>co = Vector 0 0 0, weights = Map.empty\<rparr>],
             edges = []\<rparr>"

definition mesh_e :: bmesh where
  "mesh_e = \<lparr>verts = [\<lparr>co = Vector 0 0 0, weights = [0 \<mapsto> clamp_weight (1 / 2)]\<rparr>,
                       \<lparr>co = Vector 2 0 0, weights = [0 \<mapsto> clamp_weight (1 / 2)]\<rparr>],
             edges = [(0, 1)]\<rparr>"

definition settings_e :: settings where
  "settings_e = \<lparr>seed = 0, collision_radius = 1, split_radius = 1 / 2, dt = 1, weight_decay = 2,
                 noise_scale = 1, fac_attr = 0, fac_rep = 0, fac_noise = 0\<rparr>"

definition settings_g :: settings where
  "settings_g = \<lparr>seed = 0, collision_radius = 1, split_radius = 1 / 4, dt = 1, weight_decay = 2,
                 noise_scale = 1, fac_attr = 0, fac_rep = 0, fac_noise = 0\<rparr>"

definition mesh_e_stepped :: bmesh where
  "mesh_e_stepped = \<lparr>verts = [\<lparr>co = Vector 0 0 0, weights = [0 \<mapsto> clamp_weight (1 / 4)]\<rparr>,
                               \<lparr>co = Vector 2 0 0, weights = [0 \<mapsto> clamp_weight (1 / 4)]\<rparr>],
                     edges = [(0, 1)]\<rparr>"

definition mesh_h :: bmesh where
  "mesh_h = \<lparr>verts = [\<lparr>co = Vector 0 0 0, weights = [0 \<mapsto> clamp_weight (1 / 2)]\<rparr>,
                       \<lparr>co = Vector 1 0 0, weights = [0 \<mapsto> clamp_weight (1 / 2)]\<rparr>],
             edges = [(0, 1)]\<rparr>"

definition settings_h :: settings where
  "settings_h = \<lparr>seed = 0, collision_radius = 1, split_radius = 1, dt = 1, weight_decay = - 1,
                 noise_scale = 1, fac_attr = 0, fac_rep = 0, fac_noise = 0\<rparr>"

definition mesh_h_stepped :: bmesh where
  "mesh_h_stepped = \<lparr>verts = [\<lparr>co = Vector 0 0 0, weights = [0 \<mapsto> clamp_weight 2]\<rparr>,
                               \<lparr>co = Vector 1 0 0, weights = [0 \<mapsto> clamp_weight 2]\<rparr>],
                     edges = [(0, 1)]\<rparr>"

section \<open>Properties of the embedding\<close>

subsection \<open>Vector algebra\<close>

lemma vec_zero_sel [simp]: "vx 0 = 0" "vy 0 = 0" "vz 0 = 0"
  by (simp_all add: zero_vec_def)

lemma vec_plus_sel [simp]:
  "vx (u + v) = vx u + vx v" "vy (u + v) = vy u + vy v" "vz (u + v) = vz u + vz v"
  by (simp_all add: plus_vec_def)

lemma vec_minus_sel [simp]:
  "vx (u - v) = vx u - vx v" "vy (u - v) = vy u - vy v" "vz (u - v) = vz u - vz v"
  by (simp_all add: minus_vec_def)

lemma smul_sel [simp]:
  "vx (smul c v) = c * vx v" "vy (smul c v) = c * vy v" "vz (smul c v) = c * vz v"
  by (simp_all add: smul_def)

lemma smul_zero_left [simp]: "smul 0 v = 0"
  by (simp add: vec.expand)

lemma smul_zero_right [simp]: "smul c 0 = 0"
  by (simp add: vec.expand)

lemma smul_one [simp]: "smul 1 v = v"
  by (simp add: vec.expand)


lemma vlen_zero [simp]: "vlen 0 = 0"
  by (simp add: vlen_def)

lemma vlen_nonneg [simp]: "0 \<le> vlen v"
  by (simp add: vlen_def)

lemma sum_squares3_eq_zero:
  fixes a b c :: real
  shows "a * a + b * b + c * c = 0 \<longleftrightarrow> a = 0 \<and> b = 0 \<and> c = 0"
proof
  assume h: "a * a + b * b + c * c = 0"
  have "0 \<le> a * a" "0 \<le> b * b" "0 \<le> c * c" by simp_all
  with h have "a * a = 0" "b * b = 0" "c * c = 0" by linarith+
  then show "a = 0 \<and> b = 0 \<and> c = 0" by simp
qed simp

lemma vlen_eq_zero_iff: "vlen v = 0 \<longleftrightarrow> v = 0"
proof -
  have "vlen v = 0 \<longleftrightarrow> vx v = 0 \<and> vy v = 0 \<and> vz v = 0"
    by (simp add: vlen_def sum_squares3_eq_zero)
  also have "\<dots> \<longleftrightarrow> v = 0"
    by (auto simp: vec.expand)
  finally show ?thesis .
qed

lemma vlen_smul: "vlen (smul c v) = \<bar>c\<bar> * vlen v"
proof -
  have "c * vx v * (c * vx v) + c * vy v * (c * vy v) + c * vz v * (c * vz v)
      = (c * c) * (vx v * vx v + vy v * vy v + vz v * vz v)"
    by (simp add: algebra_simps)
  then show ?thesis
    by (simp add: vlen_def real_sqrt_mult)
qed

lemma normalized_zero [simp]: "normalized 0 = 0"
  by (simp add: normalized_def)

lemma vlen_normalized: "v \<noteq> 0 \<Longrightarrow> vlen (normalized v) = 1"
  using vlen_eq_zero_iff [of v] vlen_nonneg [of v]
  by (simp add: normalized_def vlen_smul)

subsection \<open>Writes to one vertex\<close>

lemma move_vert_shape [simp]:
  "length (verts (move_vert bm v off)) = length (verts bm)"
  "edges (move_vert bm v off) = edges bm"
  by (simp_all add: move_vert_def)

lemma move_vert_weights [simp]:
  "weights (verts (move_vert bm v off) ! i) = weights (verts bm ! i)"
  by (cases "v < length (verts bm)") (simp_all add: move_vert_def nth_list_update list_update_beyond)

lemma move_vert_co_other [simp]:
  "i \<noteq> v \<Longrightarrow> co (verts (move_vert bm v off) ! i) = co (verts bm ! i)"
  by (simp add: move_vert_def)

lemma move_vert_co_same [simp]:
  "v < length (verts bm) \<Longrightarrow> co (verts (move_vert bm v off) ! v) = co (verts bm ! v) + off"
  by (simp add: move_vert_def)

lemma weight_val_clamp [simp]: "weight_val (clamp_weight x) = min 1 (max 0 x)"
  by transfer simp

lemma weight_val_range: "0 \<le> weight_val w" "weight_val w \<le> 1"
  using weight_val [of w] by simp_all

lemma get_vertex_weight_range:
  "0 \<le> get_vertex_weight bm v g" "get_vertex_weight bm v g \<le> 1"
  by (simp_all add: get_vertex_weight_def weight_val_range split: option.split)

lemma set_vertex_weight_frame:
  assumes "set_vertex_weight bm v g w = Inr bm'"
  shows "0 \<le> g"
    and "length (verts bm') = length (verts bm)"
    and "edges bm' = edges bm"
    and "co (verts bm' ! i) = co (verts bm ! i)"
    and "i \<noteq> v \<Longrightarrow> weights (verts bm' ! i) = weights (verts bm ! i)"
    and "v < length (verts bm) \<Longrightarrow>
           weights (verts bm' ! v) = (weights (verts bm ! v))(g \<mapsto> clamp_weight w)"
proof -
  from assms have g: "0 \<le> g" and
    bm': "bm' = bm\<lparr>verts := (verts bm)[v := (verts bm ! v)
                  \<lparr>weights := (weights (verts bm ! v))(g \<mapsto> clamp_weight w)\<rparr>]\<rparr>"
    by (simp_all add: set_vertex_weight_def split: if_splits)
  show "0 \<le> g" by (rule g)
  show "length (verts bm') = length (verts bm)" "edges bm' = edges bm"
    by (simp_all add: bm')
  show "co (verts bm' ! i) = co (verts bm ! i)"
    by (cases "v < length (verts bm)") (simp_all add: bm' nth_list_update list_update_beyond)
  show "i \<noteq> v \<Longrightarrow> weights (verts bm' ! i) = weights (verts bm ! i)"
    by (simp add: bm')
  show "v < length (verts bm) \<Longrightarrow>
      weights (verts bm' ! v) = (weights (verts bm ! v))(g \<mapsto> clamp_weight w)"
    by (simp add: bm')
qed

lemma set_vertex_weight_total: "0 \<le> g \<Longrightarrow> \<exists>bm'. set_vertex_weight bm v g w = Inr bm'"
  by (simp add: set_vertex_weight_def)

lemma get_vertex_weight_cong:
  "weights (verts bm' ! i) = weights (verts bm ! i) \<Longrightarrow>
     get_vertex_weight bm' i g = get_vertex_weight bm i g"
  by (simp add: get_vertex_weight_def)

lemma link_edges_cong: "edges bm' = edges bm \<Longrightarrow> link_edges bm' v = link_edges bm v"
  by (simp add: link_edges_def)

lemma link_edges_iff:
  "e \<in> set (link_edges bm v) \<longleftrightarrow>
     e < length (edges bm) \<and> (fst (edges bm ! e) = v \<or> snd (edges bm ! e) = v)"
  by (auto simp: link_edges_def)

subsection \<open>Collecting\<close>

lemma set_add_edges [simp]: "set (add_edges es acc) = set acc \<union> set es"
  by (induction es arbitrary: acc) auto

lemma fst_collect_loop:
  "fst (collect_loop bm g xs (vs, es)) = vs @ filter (\<lambda>v. get_vertex_weight bm v g > 0) xs"
  by (induction xs arbitrary: vs es) simp_all

lemma snd_collect_loop:
  "set (snd (collect_loop bm g xs (vs, es))) =
     set es \<union> (\<Union>v \<in> {v \<in> set xs. get_vertex_weight bm v g > 0}. set (link_edges bm v))"
  by (induction xs arbitrary: vs es) auto

lemma fst_collect:
  "fst (collect bm g) = filter (\<lambda>v. get_vertex_weight bm v g > 0) [0..<length (verts bm)]"
  by (simp add: collect_def fst_collect_loop)

lemma snd_collect_iff:
  "e \<in> set (snd (collect bm g)) \<longleftrightarrow>
     (\<exists>v < length (verts bm). get_vertex_weight bm v g > 0 \<and> e \<in> set (link_edges bm v))"
  by (auto simp: collect_def snd_collect_loop)

lemma collect_loop_inactive:
  "\<forall>v \<in> set xs. \<not> get_vertex_weight bm v g > 0 \<Longrightarrow> collect_loop bm g xs acc = acc"
  by (induction xs) (cases acc; simp)+

lemma collect_inactive:
  "\<forall>v < length (verts bm). \<not> get_vertex_weight bm v g > 0 \<Longrightarrow> collect bm g = ([], [])"
  by (simp add: collect_def collect_loop_inactive)

subsection \<open>The force loop\<close>

lemma calc_forces_frame:
  "calc_forces nv g P kd vs bm = Inr bm' \<Longrightarrow>
     length (verts bm') = length (verts bm) \<and> edges bm' = edges bm \<and>
     (\<forall>i. weights (verts bm' ! i) = weights (verts bm ! i)) \<and>
     (\<forall>i. i \<notin> set vs \<longrightarrow> co (verts bm' ! i) = co (verts bm ! i))"
proof (induction vs arbitrary: bm)
  case Nil
  then show ?case by simp
next
  case (Cons v vs)
  show ?case
  proof (cases "get_vertex_weight bm v g = 0")
    case True
    with Cons.prems have "calc_forces nv g P kd vs bm = Inr bm'" by simp
    from Cons.IH [OF this] show ?thesis by simp
  next
    case False
    with Cons.prems obtain off where "calc_forces nv g P kd vs (move_vert bm v off) = Inr bm'"
      by (auto simp: Let_def split: sum.splits)
    from Cons.IH [OF this] show ?thesis by simp
  qed
qed


subsection \<open>The decay loop\<close>

lemma readjust_weights_step:
  assumes "readjust_weights g wd (v # vs) bm = Inr bm'"
  obtains w bm1 where "py_pow (get_vertex_weight bm v g) wd = Inr w"
    and "set_vertex_weight bm v g w = Inr bm1"
    and "readjust_weights g wd vs bm1 = Inr bm'"
  using assms by (auto split: sum.splits)

lemma readjust_weights_frame:
  "readjust_weights g wd vs bm = Inr bm' \<Longrightarrow>
     length (verts bm') = length (verts bm) \<and> edges bm' = edges bm \<and>
     (\<forall>i. co (verts bm' ! i) = co (verts bm ! i)) \<and>
     (\<forall>i. i \<notin> set vs \<longrightarrow> weights (verts bm' ! i) = weights (verts bm ! i))"
proof (induction vs arbitrary: bm)
  case Nil
  then show ?case by simp
next
  case (Cons v vs)
  from Cons.prems obtain w bm1 where
    st: "set_vertex_weight bm v g w = Inr bm1" and
    rest: "readjust_weights g wd vs bm1 = Inr bm'"
    by (rule readjust_weights_step)
  from Cons.IH [OF rest] set_vertex_weight_frame(2-5) [OF st] show ?case by simp
qed

lemma readjust_weights_decay:
  assumes "readjust_weights g wd vs bm = Inr bm'"
    and "distinct vs" and "\<forall>v \<in> set vs. v < length (verts bm)"
    and "v \<in> set vs"
  shows "\<exists>w. py_pow (get_vertex_weight bm v g) wd = Inr w \<and>
             weights (verts bm' ! v) g = Some (clamp_weight w)"
  using assms
proof (induction vs arbitrary: bm)
  case Nil
  then show ?case by simp
next
  case (Cons u us)
  from Cons.prems(1) obtain w bm1 where
    pw: "py_pow (get_vertex_weight bm u g) wd = Inr w" and
    st: "set_vertex_weight bm u g w = Inr bm1" and
    rest: "readjust_weights g wd us bm1 = Inr bm'"
    by (rule readjust_weights_step)
  show ?case
  proof (cases "v = u")
    case True
    from Cons.prems(2) have "u \<notin> set us" by simp
    with readjust_weights_frame [OF rest]
    have "weights (verts bm' ! u) = weights (verts bm1 ! u)" by simp
    moreover from Cons.prems(3) have "u < length (verts bm)" by simp
    ultimately have "weights (verts bm' ! u) = (weights (verts bm ! u))(g \<mapsto> clamp_weight w)"
      using set_vertex_weight_frame(6) [OF st] by simp
    with pw True show ?thesis by simp
  next
    case False
    with Cons.prems(4) have vin: "v \<in> set us" by simp
    from Cons.prems(2) have d: "distinct us" by simp
    from Cons.prems(3) have b: "\<forall>x \<in> set us. x < length (verts bm1)"
      using set_vertex_weight_frame(2) [OF st] by simp
    from False have "get_vertex_weight bm1 v g = get_vertex_weight bm v g"
      using set_vertex_weight_frame(5) [OF st, of v] by (simp add: get_vertex_weight_def)
    with Cons.IH [OF rest d b vin] show ?thesis by simp
  qed
qed

lemma readjust_weights_total:
  assumes "distinct vs" and "0 \<le> g"
    and "\<forall>v \<in> set vs. \<exists>w. py_pow (get_vertex_weight bm v g) wd = Inr w"
  shows "\<exists>bm'. readjust_weights g wd vs bm = Inr bm'"
  using assms
proof (induction vs arbitrary: bm)
  case Nil
  then show ?case by simp
next
  case (Cons u us)
  from Cons.prems(3) obtain w where pw: "py_pow (get_vertex_weight bm u g) wd = Inr w"
    by auto
  from set_vertex_weight_total [OF Cons.prems(2)] obtain bm1 where
    st: "set_vertex_weight bm u g w = Inr bm1" by blast
  from Cons.prems(1) have "\<forall>v \<in> set us. v \<noteq> u" by auto
  then have "\<forall>v \<in> set us. get_vertex_weight bm1 v g = get_vertex_weight bm v g"
    using set_vertex_weight_frame(5) [OF st] by (simp add: get_vertex_weight_def)
  with Cons.prems have "\<forall>v \<in> set us. \<exists>w. py_pow (get_vertex_weight bm1 v g) wd = Inr w"
    by simp
  moreover from Cons.prems(1) have "distinct us" by simp
  ultimately obtain bm' where "readjust_weights g wd us bm1 = Inr bm'"
    using Cons.IH Cons.prems(2) by blast
  with pw st show ?case by simp
qed

lemma readjust_weights_error:
  assumes "readjust_weights g wd vs bm = Inl err" and "distinct vs"
  shows "(\<exists>v \<in> set vs. py_pow (get_vertex_weight bm v g) wd = Inl err) \<or>
         (err = KeyError \<and> g < 0)"
  using assms
proof (induction vs arbitrary: bm)
  case Nil
  then show ?case by simp
next
  case (Cons u us)
  show ?case
  proof (cases "py_pow (get_vertex_weight bm u g) wd")
    case (Inl e)
    with Cons.prems(1) show ?thesis by simp
  next
    case pw: (Inr w)
    show ?thesis
    proof (cases "set_vertex_weight bm u g w")
      case (Inl e)
      with pw Cons.prems(1) have "err = KeyError \<and> g < 0"
        by (simp add: set_vertex_weight_def split: if_splits)
      then show ?thesis by simp
    next
      case st: (Inr bm1)
      from pw st Cons.prems(1) have rest: "readjust_weights g wd us bm1 = Inl err" by simp
      from Cons.prems(2) have d: "distinct us" and nin: "u \<notin> set us" by simp_all
      from Cons.IH [OF rest d] show ?thesis
      proof
        assume "\<exists>v \<in> set us. py_pow (get_vertex_weight bm1 v g) wd = Inl err"
        then obtain v where
          v: "v \<in> set us" "py_pow (get_vertex_weight bm1 v g) wd = Inl err" by blast
        with nin have "v \<noteq> u" by auto
        then have "get_vertex_weight bm1 v g = get_vertex_weight bm v g"
          using set_vertex_weight_frame(5) [OF st, of v] by (simp add: get_vertex_weight_def)
        with v show ?thesis by auto
      next
        assume "err = KeyError \<and> g < 0"
        then show ?thesis by simp
      qed
    qed
  qed
qed

lemma py_pow_positive: "0 < v \<Longrightarrow> py_pow v w = Inr r \<Longrightarrow> 0 < r"
  by (auto simp: py_pow_def split: if_splits)

subsection \<open>The selection loop\<close>

lemma calc_avg_edge_weight_single:
  "calc_avg_edge_weight bm [e] g =
     Inr ((get_vertex_weight bm (fst (edges bm ! e)) g
           + get_vertex_weight bm (snd (edges bm ! e)) g) / 2)"
  by (simp add: calc_avg_edge_weight_def)

lemma select_edges_step:
  "select_edges bm g sr (e # es) acc = Inr sub \<Longrightarrow>
     (\<exists>a. calc_avg_edge_weight bm [e] g = Inr a \<and> a \<noteq> 0 \<and>
          exceeds_threshold (calc_length bm e) sr a) \<Longrightarrow>
     select_edges bm g sr es (acc @ [e]) = Inr sub"
  "select_edges bm g sr (e # es) acc = Inr sub \<Longrightarrow>
     \<not> (\<exists>a. calc_avg_edge_weight bm [e] g = Inr a \<and> a \<noteq> 0 \<and>
          exceeds_threshold (calc_length bm e) sr a) \<Longrightarrow>
     select_edges bm g sr es acc = Inr sub"
  by (simp_all add: calc_avg_edge_weight_single split: if_splits)

lemma select_edges_set:
  "select_edges bm g sr es acc = Inr sub \<Longrightarrow>
     set sub = set acc \<union>
       {e \<in> set es. \<exists>a. calc_avg_edge_weight bm [e] g = Inr a \<and> a \<noteq> 0 \<and>
                    exceeds_threshold (calc_length bm e) sr a}"
proof -
  define q where "q e \<longleftrightarrow> (\<exists>a. calc_avg_edge_weight bm [e] g = Inr a \<and> a \<noteq> 0 \<and>
                    exceeds_threshold (calc_length bm e) sr a)" for e
  have "select_edges bm g sr es acc = Inr sub \<Longrightarrow> set sub = set acc \<union> {e \<in> set es. q e}"
  proof (induction es arbitrary: acc)
    case Nil
    then show ?case by simp
  next
    case (Cons e es)
    show ?case
    proof (cases "q e")
      case True
      with Cons.prems have "select_edges bm g sr es (acc @ [e]) = Inr sub"
        unfolding q_def by (rule select_edges_step(1))
      from Cons.IH [OF this] True show ?thesis by auto
    next
      case False
      with Cons.prems have "select_edges bm g sr es acc = Inr sub"
        unfolding q_def by (rule select_edges_step(2))
      from Cons.IH [OF this] False show ?thesis by auto
    qed
  qed
  then show "select_edges bm g sr es acc = Inr sub \<Longrightarrow>
     set sub = set acc \<union>
       {e \<in> set es. \<exists>a. calc_avg_edge_weight bm [e] g = Inr a \<and> a \<noteq> 0 \<and>
                    exceeds_threshold (calc_length bm e) sr a}"
    unfolding q_def .
qed

lemma select_edges_total:
  "sr \<noteq> 0 \<Longrightarrow> \<exists>sub. select_edges bm g sr es acc = Inr sub"
  by (induction es arbitrary: acc) (simp_all add: calc_avg_edge_weight_single)

lemma select_edges_inert:
  "\<forall>e \<in> set es. calc_avg_edge_weight bm [e] g = Inr 0 \<Longrightarrow>
     select_edges bm g sr es acc = Inr acc"
  by (induction es arbitrary: acc) simp_all

lemma exceeds_threshold_iff:
  assumes "0 < sr" and "0 < w"
  shows "exceeds_threshold l sr w \<longleftrightarrow> l * w > sr"
proof -
  have "1 / w < l / sr \<longleftrightarrow> 1 * sr < l * w"
    using assms by (simp add: frac_less_eq field_simps)
  then show ?thesis by (simp add: exceeds_threshold_def)
qed

subsection \<open>Repulsion as a sum\<close>



lemma repulsion_loop_sum:
  "repulsion_loop bm v r hits res =
     res + sum_list (map (\<lambda>(c, i, d). smul (exp (d - r)) (normalized (co (verts bm ! v) - c)))
                       (filter (\<lambda>(c, i, d). i \<noteq> v) hits))"
  by (induction bm v r hits res rule: repulsion_loop.induct)
     (simp_all add: Let_def add.assoc)

lemma calc_vert_repulsion_sum:
  assumes "0 \<le> r"
  shows "calc_vert_repulsion bm v kd r =
     Inr (\<Sum>i \<in> {i. i < length kd \<and> i \<noteq> v \<and> vlen (kd ! i - co (verts bm ! v)) \<le> 2 * r}.
            smul (exp (vlen (kd ! i - co (verts bm ! v)) - r))
                 (normalized (co (verts bm ! v) - kd ! i)))"
proof -
  let ?c = "co (verts bm ! v)"
  let ?R = "\<lambda>i. i \<noteq> v \<and> vlen (kd ! i - ?c) \<le> 2 * r"
  let ?t = "\<lambda>i. smul (exp (vlen (kd ! i - ?c) - r)) (normalized (?c - kd ! i))"
  have hits: "find_range kd ?c (r * 2) =
      Inr (map (\<lambda>i. (kd ! i, i, vlen (kd ! i - ?c)))
             (filter (\<lambda>i. vlen (kd ! i - ?c) \<le> 2 * r) [0..<length kd]))"
    using assms by (simp add: find_range_def filter_map o_def mult.commute)
  have "calc_vert_repulsion bm v kd r = Inr (sum_list (map ?t (filter ?R [0..<length kd])))"
    by (simp add: calc_vert_repulsion_def hits repulsion_loop_sum filter_map o_def conj_commute)
  also have "sum_list (map ?t (filter ?R [0..<length kd])) = sum ?t (set (filter ?R [0..<length kd]))"
    by (rule sum_list_distinct_conv_sum_set) simp
  also have "set (filter ?R [0..<length kd]) = {i. i < length kd \<and> ?R i}"
    by auto
  finally show ?thesis .
qed

lemma calc_vert_repulsion_total:
  "0 \<le> r \<Longrightarrow> \<exists>f. calc_vert_repulsion bm v kd r = Inr f"
  by (simp add: calc_vert_repulsion_def find_range_def)

subsection \<open>The write of one vertex in the force loop\<close>

lemma calc_forces_total:
  "0 \<le> collision_radius P \<Longrightarrow> \<exists>bm'. calc_forces nv g P kd vs bm = Inr bm'"
proof (induction vs arbitrary: bm)
  case Nil
  then show ?case by simp
next
  case (Cons v vs)
  from Cons.prems obtain f where "calc_vert_repulsion bm v kd (collision_radius P) = Inr f"
    using calc_vert_repulsion_total by blast
  with Cons show ?case by (simp add: Let_def)
qed


subsection \<open>The phases of the step\<close>

lemma midpoint_subdivide_old:
  "i < length (verts bm) \<Longrightarrow>
     weights (verts (midpoint_subdivide bm es) ! i) = weights (verts bm ! i)"
proof (induction es arbitrary: bm)
  case Nil
  then show ?case by simp
next
  case (Cons e es)
  then show ?case by (simp add: Let_def nth_append)
qed

lemma midpoint_subdivide_preserves_weights: "preserves_weights midpoint_subdivide"
  by (simp add: preserves_weights_def midpoint_subdivide_old)

lemma integrated_frame:
  assumes "integrated nv bm g P = Inr bm1"
  shows "length (verts bm1) = length (verts bm)" and "edges bm1 = edges bm"
    and "weights (verts bm1 ! i) = weights (verts bm ! i)"
    and "\<not> (i < length (verts bm) \<and> get_vertex_weight bm i g > 0) \<Longrightarrow>
           co (verts bm1 ! i) = co (verts bm ! i)"
  using calc_forces_frame [OF assms [unfolded integrated_def]]
  by (auto simp: fst_collect)

lemma decayed_cases:
  assumes "decayed nv bm g P = Inr bm2"
  obtains bm1 where "integrated nv bm g P = Inr bm1"
    and "readjust_weights g (weight_decay P) [0..<length (verts bm)] bm1 = Inr bm2"
proof -
  from assms obtain bm1 where i: "integrated nv bm g P = Inr bm1"
    and r: "readjust_weights g (weight_decay P) [0..<length (verts bm1)] bm1 = Inr bm2"
    by (auto simp: decayed_def split: sum.splits)
  from integrated_frame(1) [OF i] r
  have "readjust_weights g (weight_decay P) [0..<length (verts bm)] bm1 = Inr bm2" by simp
  with i show ?thesis by (rule that)
qed

lemma decayed_frame:
  assumes "decayed nv bm g P = Inr bm2" and "integrated nv bm g P = Inr bm1"
  shows "length (verts bm2) = length (verts bm)" and "edges bm2 = edges bm"
    and "co (verts bm2 ! i) = co (verts bm1 ! i)"
proof -
  from assms obtain r: "readjust_weights g (weight_decay P) [0..<length (verts bm)] bm1 = Inr bm2"
    by (auto elim!: decayed_cases)
  from readjust_weights_frame [OF r] integrated_frame(1,2) [OF assms(2)]
  show "length (verts bm2) = length (verts bm)" "edges bm2 = edges bm"
    "co (verts bm2 ! i) = co (verts bm1 ! i)" by simp_all
qed

lemma py_pow_unit:
  assumes "0 \<le> b" and "b \<le> 1" and "0 \<le> wd" and "py_pow b wd = Inr r"
  shows "0 \<le> r \<and> r \<le> 1"
proof (cases "wd = 0 \<or> b = 0")
  case True
  with assms show ?thesis by (auto simp: py_pow_def split: if_splits)
next
  case False
  with assms have r: "r = b powr wd" and b: "0 < b" by (auto simp: py_pow_def split: if_splits)
  from b assms(2,3) have "b powr wd \<le> 1" by (simp add: powr_le1)
  with r show ?thesis by simp
qed

lemma decayed_weight:
  assumes "decayed nv bm g P = Inr bm2" and "i < length (verts bm)"
  shows "\<exists>w. py_pow (get_vertex_weight bm i g) (weight_decay P) = Inr w \<and>
             weights (verts bm2 ! i) g = Some (clamp_weight w) \<and>
             get_vertex_weight bm2 i g = min 1 (max 0 w)"
proof -
  from assms(1) obtain bm1 where i: "integrated nv bm g P = Inr bm1"
    and r: "readjust_weights g (weight_decay P) [0..<length (verts bm)] bm1 = Inr bm2"
    by (rule decayed_cases)
  have b: "\<forall>v \<in> set [0..<length (verts bm)]. v < length (verts bm1)"
    using integrated_frame(1) [OF i] by simp
  have w: "get_vertex_weight bm1 i g = get_vertex_weight bm i g"
    using integrated_frame(3) [OF i] by (simp add: get_vertex_weight_def)
  from readjust_weights_decay [OF r _ b, of i] assms(2) w
  obtain x where "py_pow (get_vertex_weight bm i g) (weight_decay P) = Inr x"
    "weights (verts bm2 ! i) g = Some (clamp_weight x)" by auto
  then show ?thesis by (auto simp: get_vertex_weight_def)
qed

lemma decayed_weight_positive:
  assumes "decayed nv bm g P = Inr bm2" and "i < length (verts bm)"
    and "get_vertex_weight bm i g > 0"
  shows "get_vertex_weight bm2 i g > 0"
proof -
  from decayed_weight [OF assms(1,2)] obtain w where
    pw: "py_pow (get_vertex_weight bm i g) (weight_decay P) = Inr w" and
    v: "get_vertex_weight bm2 i g = min 1 (max 0 w)" by blast
  from assms(3) pw have "0 < w" by (rule py_pow_positive)
  with v show ?thesis by simp
qed

lemma decayed_weight_unclamped:
  assumes "decayed nv bm g P = Inr bm2" and "i < length (verts bm)"
    and "0 \<le> weight_decay P"
  shows "py_pow (get_vertex_weight bm i g) (weight_decay P) = Inr (get_vertex_weight bm2 i g)"
proof -
  from decayed_weight [OF assms(1,2)] obtain w where
    pw: "py_pow (get_vertex_weight bm i g) (weight_decay P) = Inr w" and
    v: "get_vertex_weight bm2 i g = min 1 (max 0 w)" by blast
  from py_pow_unit [OF get_vertex_weight_range assms(3) pw] v have
    "get_vertex_weight bm2 i g = w" by simp
  with pw show ?thesis by simp
qed

lemma grow_step_Inr:
  assumes "grow_step sub nv bm g P = Inr bm'"
  shows "\<exists>bm2 es. decayed nv bm g P = Inr bm2 \<and> edges_to_subdivide nv bm g P = Inr es \<and>
           bm' = (if length es > 0 then sub bm2 es else bm2)"
proof (cases "decayed nv bm g P")
  case (Inl err)
  with assms show ?thesis by (simp add: grow_step_def)
next
  case d: (Inr bm2)
  show ?thesis
  proof (cases "select_edges bm2 g (split_radius P) (snd (collect bm g)) []")
    case (Inl err)
    with assms d show ?thesis by (simp add: grow_step_def)
  next
    case (Inr es)
    with assms d have "bm' = (if length es > 0 then sub bm2 es else bm2)"
      by (simp add: grow_step_def split: if_splits)
    with d Inr show ?thesis by (simp add: edges_to_subdivide_def)
  qed
qed


lemma py_pow_zero_base: "py_pow 0 wd = Inr w \<Longrightarrow> min 1 (max 0 w) = w"
  by (auto simp: py_pow_def split: if_splits)

lemma grow_step_old_weights:
  assumes "grow_step sub nv bm g P = Inr bm'" and "preserves_weights sub"
    and "i < length (verts bm)"
  shows "\<exists>bm2. decayed nv bm g P = Inr bm2 \<and> weights (verts bm' ! i) = weights (verts bm2 ! i)"
proof -
  from grow_step_Inr [OF assms(1)] obtain bm2 es where
    d: "decayed nv bm g P = Inr bm2" and
    r: "bm' = (if length es > 0 then sub bm2 es else bm2)" by blast
  from decayed_cases [OF d] obtain bm1 where i1: "integrated nv bm g P = Inr bm1" by blast
  from decayed_frame(1) [OF d i1] assms(3) have "i < length (verts bm2)" by simp
  with assms(2) r have "weights (verts bm' ! i) = weights (verts bm2 ! i)"
    by (simp add: preserves_weights_def)
  with d show ?thesis by blast
qed


lemma considered_edge_average:
  assumes run: "decayed nv bm g P = Inr bm2"
    and e: "e \<in> set (snd (collect bm g))"
  shows "\<exists>a. calc_avg_edge_weight bm2 [e] g = Inr a \<and> 0 < a"
proof -
  let ?a = "fst (edges bm ! e)" and ?b = "snd (edges bm ! e)"
  from run obtain bm1 where i1: "integrated nv bm g P = Inr bm1" by (rule decayed_cases)
  have ed: "edges bm2 = edges bm" by (rule decayed_frame(2) [OF run i1])
  from e obtain u where u: "u < length (verts bm)" "get_vertex_weight bm u g > 0"
    "e \<in> set (link_edges bm u)" by (auto simp: snd_collect_iff)
  from decayed_weight_positive [OF run u(1,2)] have pos: "0 < get_vertex_weight bm2 u g" .
  from u(3) have "u = ?a \<or> u = ?b" by (auto simp: link_edges_iff)
  with pos get_vertex_weight_range(1) [of bm2 ?a g] get_vertex_weight_range(1) [of bm2 ?b g]
  have pos2: "0 < (get_vertex_weight bm2 ?a g + get_vertex_weight bm2 ?b g) / 2" by auto
  have "calc_avg_edge_weight bm2 [e] g =
      Inr ((get_vertex_weight bm2 ?a g + get_vertex_weight bm2 ?b g) / 2)"
    by (simp add: calc_avg_edge_weight_single ed)
  with pos2 show ?thesis by blast
qed

lemma py_pow_defined:
  assumes "0 \<le> b" and "b = 0 \<longrightarrow> 0 \<le> wd"
  shows "\<exists>w. py_pow b wd = Inr w"
  using assms by (auto simp: py_pow_def)

lemma grow_step_total:
  assumes g: "0 \<le> g" and sr: "split_radius P \<noteq> 0" and cr: "0 \<le> collision_radius P"
    and pw: "\<forall>i < length (verts bm). get_vertex_weight bm i g = 0 \<longrightarrow> 0 \<le> weight_decay P"
  shows "\<exists>bm'. grow_step sub nv bm g P = Inr bm'"
proof -
  from calc_forces_total [OF cr] obtain bm1 where i1: "integrated nv bm g P = Inr bm1"
    unfolding integrated_def by blast
  have len: "length (verts bm1) = length (verts bm)" by (rule integrated_frame(1) [OF i1])
  have same: "get_vertex_weight bm1 i g = get_vertex_weight bm i g" for i
    using integrated_frame(3) [OF i1] by (simp add: get_vertex_weight_def)
  have "\<exists>w. py_pow (get_vertex_weight bm1 v g) (weight_decay P) = Inr w"
    if "v < length (verts bm1)" for v
    using that pw len same get_vertex_weight_range(1) [of bm1 v g]
    by (intro py_pow_defined) simp_all
  then have "\<forall>v \<in> set [0..<length (verts bm1)].
      \<exists>w. py_pow (get_vertex_weight bm1 v g) (weight_decay P) = Inr w" by simp
  from readjust_weights_total [OF _ g this] obtain bm2 where
    "readjust_weights g (weight_decay P) [0..<length (verts bm1)] bm1 = Inr bm2" by auto
  with i1 have d: "decayed nv bm g P = Inr bm2" by (simp add: decayed_def)
  from select_edges_total [OF sr] obtain es where
    "select_edges bm2 g (split_radius P) (snd (collect bm g)) [] = Inr es" by blast
  with d show ?thesis by (simp add: grow_step_def)
qed

subsection \<open>The step on the example meshes\<close>

lemmas eval_defs =
  grow_step_def edges_to_subdivide_def decayed_def integrated_def collect_def
  get_vertex_weight_def set_vertex_weight_def move_vert_def link_edges_def other_vert_def
  calc_vert_attraction_def calc_vert_repulsion_def find_range_def calc_avg_edge_weight_def
  calc_length_def exceeds_threshold_def py_pow_def normalized_def vlen_def smul_def
  plus_vec_def minus_vec_def zero_vec_def no_noise_def upt_rec Let_def

lemmas example_defs =
  mesh_a_def mesh_a_moved_def mesh_a_stepped_def mesh_b_def mesh_b_pulled_def mesh_c_def
  mesh_c_stepped_def mesh_c_ones_def mesh_d_def mesh_e_def mesh_e_stepped_def mesh_h_def
  mesh_h_stepped_def settings_a_def settings_b_def settings_c_def settings_e_def
  settings_f_def settings_g_def settings_h_def

lemma integrated_mesh_a: "integrated no_noise mesh_a 0 settings_a = Inr mesh_a_moved"
  by (simp add: eval_defs example_defs)


lemma grow_step_mesh_a:
  "grow_step midpoint_subdivide no_noise mesh_a 0 settings_a = Inr mesh_a_stepped"
  by (simp add: eval_defs example_defs)




lemma grow_step_mesh_c:
  "grow_step midpoint_subdivide no_noise mesh_c 0 settings_a = Inr mesh_c_stepped"
  by (simp add: eval_defs example_defs)

lemma grow_step_mesh_c_ones:
  "grow_step midpoint_subdivide no_noise mesh_c 0 settings_c = Inr mesh_c_ones"
  by (simp add: eval_defs example_defs)

lemma edges_to_subdivide_mesh_c_ones:
  "edges_to_subdivide no_noise mesh_c 0 settings_c = Inr []"
  by (simp add: eval_defs example_defs)

lemma integrated_mesh_e: "integrated no_noise mesh_e 0 settings_e = Inr mesh_e"
  by (simp add: eval_defs example_defs)

lemma decayed_mesh_e: "decayed no_noise mesh_e 0 settings_e = Inr mesh_e_stepped"
  by (simp add: eval_defs example_defs power2_eq_square)

lemma edges_to_subdivide_mesh_e: "edges_to_subdivide no_noise mesh_e 0 settings_e = Inr []"
  by (simp add: eval_defs example_defs power2_eq_square)

lemma grow_step_mesh_e:
  "grow_step midpoint_subdivide no_noise mesh_e 0 settings_e = Inr mesh_e_stepped"
  by (simp add: eval_defs example_defs power2_eq_square)

lemma decayed_mesh_e_g: "decayed no_noise mesh_e 0 settings_g = Inr mesh_e_stepped"
  by (simp add: eval_defs example_defs power2_eq_square)

lemma edges_to_subdivide_mesh_e_g: "edges_to_subdivide no_noise mesh_e 0 settings_g = Inr [0]"
  by (simp add: eval_defs example_defs power2_eq_square)

lemma grow_step_mesh_e_g:
  "grow_step midpoint_subdivide no_noise mesh_e 0 settings_g
     = Inr (midpoint_subdivide mesh_e_stepped [0])"
  by (simp add: eval_defs example_defs power2_eq_square)

lemma integrated_mesh_h: "integrated no_noise mesh_h 0 settings_h = Inr mesh_h"
  by (simp add: eval_defs example_defs)

lemma grow_step_mesh_h:
  "grow_step midpoint_subdivide no_noise mesh_h 0 settings_h = Inr mesh_h_stepped"
  by (simp add: eval_defs example_defs powr_minus)

lemma edges_to_subdivide_mesh_h: "edges_to_subdivide no_noise mesh_h 0 settings_h = Inr []"
  by (simp add: eval_defs example_defs powr_minus)

lemma collect_mesh_e: "collect mesh_e 0 = ([0, 1], [0])"
  by (simp add: eval_defs example_defs)

lemma collect_mesh_h: "collect mesh_h 0 = ([0, 1], [0])"
  by (simp add: eval_defs example_defs)

section \<open>The claims\<close>

subsection \<open>C1: the position written for an active vertex\<close>



subsection \<open>C2: the weight after one step\<close>

text \<open>
  The weight after a step is not always \<open>old ** weight_decay\<close>: on \<open>mesh_h\<close> the weight one
  half with exponent \<open>-1\<close> has the power 2, and the weight found after the step is 1,
  because the write clamps.
\<close>

theorem weight_after_step_not_plain_power:
  "grow_step midpoint_subdivide no_noise mesh_h 0 settings_h = Inr mesh_h_stepped \<and>
   get_vertex_weight mesh_h 0 0 = 1 / 2 \<and>
   py_pow (get_vertex_weight mesh_h 0 0) (weight_decay settings_h) = Inr 2 \<and>
   get_vertex_weight mesh_h_stepped 0 0 = 1 \<and>
   py_pow (get_vertex_weight mesh_h 0 0) (weight_decay settings_h)
     \<noteq> Inr (get_vertex_weight mesh_h_stepped 0 0)"
  by (simp add: grow_step_mesh_h)
     (simp add: mesh_h_def mesh_h_stepped_def settings_h_def get_vertex_weight_def py_pow_def
        powr_minus)

text \<open>
  Claim C2, amended. If the step returns, then for every vertex of the mesh at the start of
  the step, active or not, its weight afterwards is Python's \<open>old ** weight_decay\<close> clamped
  to the range from 0 to 1, whatever the force loop did to the positions; for an exponent
  that is not negative nothing is clamped and the weight is \<open>old ** weight_decay\<close> itself.
  The subdivision primitive is assumed to leave the weight entries of the existing vertices
  alone.
\<close>

theorem weight_after_step:
  assumes "grow_step sub nv bm g P = Inr bm'"
    and "preserves_weights sub"
    and "i < length (verts bm)"
  shows "(\<exists>w. py_pow (get_vertex_weight bm i g) (weight_decay P) = Inr w \<and>
              get_vertex_weight bm' i g = min 1 (max 0 w)) \<and>
         (0 \<le> weight_decay P \<longrightarrow>
            py_pow (get_vertex_weight bm i g) (weight_decay P) = Inr (get_vertex_weight bm' i g))"
proof -
  from grow_step_old_weights [OF assms] obtain bm2 where
    d: "decayed nv bm g P = Inr bm2" and
    same: "weights (verts bm' ! i) = weights (verts bm2 ! i)" by blast
  from same have eq: "get_vertex_weight bm' i g = get_vertex_weight bm2 i g"
    by (rule get_vertex_weight_cong)
  from decayed_weight [OF d assms(3)] eq have
    "\<exists>w. py_pow (get_vertex_weight bm i g) (weight_decay P) = Inr w \<and>
         get_vertex_weight bm' i g = min 1 (max 0 w)" by auto
  moreover have "py_pow (get_vertex_weight bm i g) (weight_decay P) = Inr (get_vertex_weight bm' i g)"
    if "0 \<le> weight_decay P"
    using decayed_weight_unclamped [OF d assms(3) that] eq by simp
  ultimately show ?thesis by blast
qed

text \<open>
  On \<open>mesh_e\<close> with split radius one quarter the edge is subdivided (three vertices
  afterwards), and vertex 0 goes from weight one half to one quarter, the exponent being 2.
\<close>

theorem weight_after_step_witness:
  "grow_step midpoint_subdivide no_noise mesh_e 0 settings_g
     = Inr (midpoint_subdivide mesh_e_stepped [0]) \<and>
   preserves_weights midpoint_subdivide \<and> 0 < length (verts mesh_e) \<and>
   length (verts (midpoint_subdivide mesh_e_stepped [0])) = 3 \<and>
   get_vertex_weight mesh_e 0 0 = 1 / 2 \<and>
   get_vertex_weight (midpoint_subdivide mesh_e_stepped [0]) 0 0 = 1 / 4 \<and>
   (\<exists>w. py_pow (get_vertex_weight mesh_e 0 0) (weight_decay settings_g) = Inr w \<and>
        get_vertex_weight (midpoint_subdivide mesh_e_stepped [0]) 0 0 = min 1 (max 0 w)) \<and>
   0 \<le> weight_decay settings_g \<and>
   py_pow (get_vertex_weight mesh_e 0 0) (weight_decay settings_g)
     = Inr (get_vertex_weight (midpoint_subdivide mesh_e_stepped [0]) 0 0)"
proof -
  have h3: "0 < length (verts mesh_e)" by (simp add: mesh_e_def)
  have n: "length (verts (midpoint_subdivide mesh_e_stepped [0])) = 3"
    by (simp add: mesh_e_stepped_def Let_def)
  have w: "get_vertex_weight mesh_e 0 0 = 1 / 2"
    by (simp add: mesh_e_def get_vertex_weight_def)
  have w': "get_vertex_weight (midpoint_subdivide mesh_e_stepped [0]) 0 0 = 1 / 4"
    by (simp add: mesh_e_stepped_def get_vertex_weight_def Let_def)
  have wd: "0 \<le> weight_decay settings_g" by (simp add: settings_g_def)
  note c = weight_after_step [OF grow_step_mesh_e_g midpoint_subdivide_preserves_weights h3]
  note c1 = c [THEN conjunct1]
  note c2 = c [THEN conjunct2, THEN mp, OF wd]
  show ?thesis
    by (rule conjI [OF grow_step_mesh_e_g conjI [OF midpoint_subdivide_preserves_weights
          conjI [OF h3 conjI [OF n conjI [OF w conjI [OF w' conjI [OF c1
            conjI [OF wd c2]]]]]]]])
qed

subsection \<open>C3: the subdivision threshold\<close>

text \<open>
  The threshold as a statement about any edge and the weight \<open>W\<close> of its endpoints fails
  under both readings of \<open>W\<close>. Weight before the step: on \<open>mesh_e\<close> (weights one half,
  exponent 2, split radius one half) the edge has \<open>length * W = 1\<close> above the split radius
  and is not subdivided, since the test reads the decayed weights. Weight after the decay:
  on \<open>mesh_c\<close> with exponent 0 both weights become 1 and \<open>length * W = 1\<close> is above the split
  radius one half, but no vertex was active at the start, so the edge is not considered.
\<close>

theorem subdivision_threshold_as_worded_fails:
  "(grow_step midpoint_subdivide no_noise mesh_e 0 settings_e = Inr mesh_e_stepped \<and>
    edges_to_subdivide no_noise mesh_e 0 settings_e = Inr [] \<and>
    0 < split_radius settings_e \<and>
    get_vertex_weight mesh_e 0 0 = 1 / 2 \<and> get_vertex_weight mesh_e 1 0 = 1 / 2 \<and>
    calc_length mesh_e_stepped 0 = 2 \<and>
    calc_length mesh_e_stepped 0 * (1 / 2) > split_radius settings_e) \<and>
   (grow_step midpoint_subdivide no_noise mesh_c 0 settings_c = Inr mesh_c_ones \<and>
    edges_to_subdivide no_noise mesh_c 0 settings_c = Inr [] \<and>
    0 < split_radius settings_c \<and>
    get_vertex_weight mesh_c_ones 0 0 = 1 \<and> get_vertex_weight mesh_c_ones 1 0 = 1 \<and>
    calc_length mesh_c_ones 0 = 1 \<and>
    calc_length mesh_c_ones 0 * 1 > split_radius settings_c)"
  by (simp add: grow_step_mesh_e edges_to_subdivide_mesh_e grow_step_mesh_c_ones
        edges_to_subdivide_mesh_c_ones)
     (simp add: example_defs get_vertex_weight_def calc_length_def vlen_def minus_vec_def)

text \<open>
  Claim C3, amended. With a positive split radius the selection returns a list \<open>es\<close>, and the
  step returns the mesh after the decay when \<open>es\<close> is empty and otherwise what the
  subdivision primitive makes of that mesh and \<open>es\<close>. Only considered edges (incident to a
  vertex that was active at the start) are in \<open>es\<close>. A considered edge whose endpoints both
  have weight \<open>W\<close> after the decay has \<open>W > 0\<close> and is in \<open>es\<close> exactly when
  \<open>length * W > split_radius\<close>, the length being the one after the force loop; at
  \<open>length * W = split_radius\<close> it is not. For a positive weight the test of the source,
  \<open>l / split_radius > 1 / w\<close>, is the same as \<open>l * w > split_radius\<close>. A considered edge
  always has a positive average weight in exact arithmetic; the selection loop itself, run
  on edges of average weight 0, selects none of them and raises nothing, whatever the split
  radius.
\<close>

theorem subdivision_threshold:
  assumes run: "decayed nv bm g P = Inr bm2"
    and sr: "0 < split_radius P"
  shows "\<exists>es. edges_to_subdivide nv bm g P = Inr es \<and>
     grow_step sub nv bm g P = Inr (if es = [] then bm2 else sub bm2 es) \<and>
     set es \<subseteq> set (snd (collect bm g)) \<and>
     (e \<in> set (snd (collect bm g)) \<and>
      get_vertex_weight bm2 (fst (edges bm ! e)) g = W \<and>
      get_vertex_weight bm2 (snd (edges bm ! e)) g = W \<longrightarrow>
        0 < W \<and>
        (e \<in> set es \<longleftrightarrow> calc_length bm2 e * W > split_radius P) \<and>
        (calc_length bm2 e * W = split_radius P \<longrightarrow> e \<notin> set es)) \<and>
     (0 < w \<longrightarrow> (exceeds_threshold l (split_radius P) w \<longleftrightarrow> l * w > split_radius P)) \<and>
     (e \<in> set (snd (collect bm g)) \<longrightarrow>
        (\<exists>a. calc_avg_edge_weight bm2 [e] g = Inr a \<and> 0 < a)) \<and>
     ((\<forall>e' \<in> set es'. calc_avg_edge_weight bm' [e'] g' = Inr 0) \<longrightarrow>
        select_edges bm' g' sr' es' [] = Inr [])"
proof -
  let ?a = "fst (edges bm ! e)" and ?b = "snd (edges bm ! e)"
  from run obtain bm1 where i1: "integrated nv bm g P = Inr bm1" by (rule decayed_cases)
  have ed: "edges bm2 = edges bm" by (rule decayed_frame(2) [OF run i1])
  have sel: "edges_to_subdivide nv bm g P =
      select_edges bm2 g (split_radius P) (snd (collect bm g)) []"
    by (simp add: edges_to_subdivide_def run)
  from sr have "split_radius P \<noteq> 0" by simp
  from select_edges_total [OF this] obtain es where
    es: "select_edges bm2 g (split_radius P) (snd (collect bm g)) [] = Inr es" by blast
  have step: "grow_step sub nv bm g P = Inr (if es = [] then bm2 else sub bm2 es)"
    by (simp add: grow_step_def run es)
  have sub: "set es \<subseteq> set (snd (collect bm g))"
    using select_edges_set [OF es] by auto
  have mem: "e \<in> set es \<longleftrightarrow>
      (\<exists>a. calc_avg_edge_weight bm2 [e] g = Inr a \<and> a \<noteq> 0 \<and>
           exceeds_threshold (calc_length bm2 e) (split_radius P) a)"
    if "e \<in> set (snd (collect bm g))"
    using select_edges_set [OF es] that by simp
  have p1: "0 < W \<and> (e \<in> set es \<longleftrightarrow> calc_length bm2 e * W > split_radius P) \<and>
            (calc_length bm2 e * W = split_radius P \<longrightarrow> e \<notin> set es)"
    if h: "e \<in> set (snd (collect bm g)) \<and>
          get_vertex_weight bm2 ?a g = W \<and> get_vertex_weight bm2 ?b g = W"
  proof -
    from h have avg: "calc_avg_edge_weight bm2 [e] g = Inr W"
      by (simp add: calc_avg_edge_weight_single ed)
    from h considered_edge_average [OF run, of e] avg have W: "0 < W" by auto
    from h mem avg W have "e \<in> set es \<longleftrightarrow>
        exceeds_threshold (calc_length bm2 e) (split_radius P) W" by simp
    also have "\<dots> \<longleftrightarrow> calc_length bm2 e * W > split_radius P"
      using sr W by (simp add: exceeds_threshold_iff)
    finally show ?thesis using W by auto
  qed
  have p2: "0 < w \<longrightarrow>
      (exceeds_threshold l (split_radius P) w \<longleftrightarrow> l * w > split_radius P)"
    using sr by (simp add: exceeds_threshold_iff)
  have p3: "\<exists>a. calc_avg_edge_weight bm2 [e] g = Inr a \<and> 0 < a"
    if "e \<in> set (snd (collect bm g))"
    using run that by (rule considered_edge_average)
  have p4: "select_edges bm' g' sr' es' [] = Inr []"
    if "\<forall>e' \<in> set es'. calc_avg_edge_weight bm' [e'] g' = Inr 0"
    using that by (rule select_edges_inert)
  have "edges_to_subdivide nv bm g P = Inr es \<and>
     grow_step sub nv bm g P = Inr (if es = [] then bm2 else sub bm2 es) \<and>
     set es \<subseteq> set (snd (collect bm g)) \<and>
     (e \<in> set (snd (collect bm g)) \<and>
      get_vertex_weight bm2 ?a g = W \<and> get_vertex_weight bm2 ?b g = W \<longrightarrow>
        0 < W \<and>
        (e \<in> set es \<longleftrightarrow> calc_length bm2 e * W > split_radius P) \<and>
        (calc_length bm2 e * W = split_radius P \<longrightarrow> e \<notin> set es)) \<and>
     (0 < w \<longrightarrow> (exceeds_threshold l (split_radius P) w \<longleftrightarrow> l * w > split_radius P)) \<and>
     (e \<in> set (snd (collect bm g)) \<longrightarrow>
        (\<exists>a. calc_avg_edge_weight bm2 [e] g = Inr a \<and> 0 < a)) \<and>
     ((\<forall>e' \<in> set es'. calc_avg_edge_weight bm' [e'] g' = Inr 0) \<longrightarrow>
        select_edges bm' g' sr' es' [] = Inr [])"
  proof (intro conjI impI)
    show "edges_to_subdivide nv bm g P = Inr es" by (simp add: sel es)
    show "grow_step sub nv bm g P = Inr (if es = [] then bm2 else sub bm2 es)" by (rule step)
    show "set es \<subseteq> set (snd (collect bm g))" by (rule sub)
  next
    assume h: "e \<in> set (snd (collect bm g)) \<and>
          get_vertex_weight bm2 ?a g = W \<and> get_vertex_weight bm2 ?b g = W"
    from p1 [OF h] show "0 < W" by simp
    from p1 [OF h] show "e \<in> set es \<longleftrightarrow> calc_length bm2 e * W > split_radius P" by simp
    assume "calc_length bm2 e * W = split_radius P"
    with p1 [OF h] show "e \<notin> set es" by simp
  next
    assume "0 < w"
    with p2 show "exceeds_threshold l (split_radius P) w \<longleftrightarrow> l * w > split_radius P" by simp
  next
    assume "e \<in> set (snd (collect bm g))"
    then show "\<exists>a. calc_avg_edge_weight bm2 [e] g = Inr a \<and> 0 < a" by (rule p3)
  next
    assume "\<forall>e' \<in> set es'. calc_avg_edge_weight bm' [e'] g' = Inr 0"
    then show "select_edges bm' g' sr' es' [] = Inr []" by (rule p4)
  qed
  then show ?thesis ..
qed

text \<open>
  On \<open>mesh_e\<close> (length 2, weights one half before and one quarter after the decay): with
  split radius one quarter the edge is selected and the step returns the subdivided mesh
  of three vertices; with split radius one half, the boundary \<open>2 * (1/4) = 1/2\<close>, it is not
  selected. The edge of \<open>mesh_c\<close> has average weight 0, and the selection loop run on it
  with split radius 0 returns the empty list.
\<close>

theorem subdivision_threshold_witness:
  "(decayed no_noise mesh_e 0 settings_g = Inr mesh_e_stepped \<and> 0 < split_radius settings_g \<and>
    edges_to_subdivide no_noise mesh_e 0 settings_g = Inr [0] \<and>
    grow_step midpoint_subdivide no_noise mesh_e 0 settings_g
      = Inr (if [0::nat] = [] then mesh_e_stepped else midpoint_subdivide mesh_e_stepped [0]) \<and>
    length (verts (midpoint_subdivide mesh_e_stepped [0])) = 3 \<and>
    (0 \<in> set (snd (collect mesh_e 0)) \<and>
     get_vertex_weight mesh_e_stepped (fst (edges mesh_e ! 0)) 0 = 1 / 4 \<and>
     get_vertex_weight mesh_e_stepped (snd (edges mesh_e ! 0)) 0 = 1 / 4) \<and>
    calc_length mesh_e_stepped 0 = 2 \<and>
    (0 \<in> set [0::nat] \<longleftrightarrow>
       calc_length mesh_e_stepped 0 * (1 / 4) > split_radius settings_g) \<and>
    (\<exists>a. calc_avg_edge_weight mesh_e_stepped [0] 0 = Inr a \<and> 0 < a)) \<and>
   (decayed no_noise mesh_e 0 settings_e = Inr mesh_e_stepped \<and>
    0 < split_radius settings_e \<and>
    edges_to_subdivide no_noise mesh_e 0 settings_e = Inr [] \<and>
    calc_length mesh_e_stepped 0 * (1 / 4) = split_radius settings_e \<and>
    (0::nat) \<notin> set []) \<and>
   (calc_avg_edge_weight mesh_c [0] 0 = Inr 0 \<and> select_edges mesh_c 0 0 [0] [] = Inr [])"
proof -
  have sr: "0 < split_radius settings_g" by (simp add: settings_g_def)
  have n: "length (verts (midpoint_subdivide mesh_e_stepped [0])) = 3"
    by (simp add: mesh_e_stepped_def Let_def)
  have a: "0 \<in> set (snd (collect mesh_e 0)) \<and>
      get_vertex_weight mesh_e_stepped (fst (edges mesh_e ! 0)) 0 = 1 / 4 \<and>
      get_vertex_weight mesh_e_stepped (snd (edges mesh_e ! 0)) 0 = 1 / 4"
    by (simp add: collect_mesh_e) (simp add: mesh_e_def mesh_e_stepped_def get_vertex_weight_def)
  have l: "calc_length mesh_e_stepped 0 = 2"
    by (simp add: mesh_e_stepped_def calc_length_def vlen_def minus_vec_def)
  have z: "\<forall>e' \<in> set [0]. calc_avg_edge_weight mesh_c [e'] 0 = Inr 0"
    by (simp add: mesh_c_def calc_avg_edge_weight_def get_vertex_weight_def)
  have z0: "calc_avg_edge_weight mesh_c [0] 0 = Inr 0"
    by (simp add: mesh_c_def calc_avg_edge_weight_def get_vertex_weight_def)
  from subdivision_threshold [OF decayed_mesh_e_g sr,
      where sub = midpoint_subdivide and e = 0 and W = "1 / 4" and w = 1 and l = 2
        and es' = "[0]" and bm' = mesh_c and g' = 0 and sr' = 0]
  obtain es where
    es: "edges_to_subdivide no_noise mesh_e 0 settings_g = Inr es" and
    st: "grow_step midpoint_subdivide no_noise mesh_e 0 settings_g
      = Inr (if es = [] then mesh_e_stepped else midpoint_subdivide mesh_e_stepped es)" and
    p1: "0 \<in> set (snd (collect mesh_e 0)) \<and>
      get_vertex_weight mesh_e_stepped (fst (edges mesh_e ! 0)) 0 = 1 / 4 \<and>
      get_vertex_weight mesh_e_stepped (snd (edges mesh_e ! 0)) 0 = 1 / 4 \<longrightarrow>
        (0::real) < 1 / 4 \<and>
        (0 \<in> set es \<longleftrightarrow> calc_length mesh_e_stepped 0 * (1 / 4) > split_radius settings_g) \<and>
        (calc_length mesh_e_stepped 0 * (1 / 4) = split_radius settings_g \<longrightarrow> 0 \<notin> set es)" and
    p3: "0 \<in> set (snd (collect mesh_e 0)) \<longrightarrow>
        (\<exists>a. calc_avg_edge_weight mesh_e_stepped [0] 0 = Inr a \<and> 0 < a)" and
    p4: "(\<forall>e' \<in> set [0]. calc_avg_edge_weight mesh_c [e'] 0 = Inr 0) \<longrightarrow>
        select_edges mesh_c 0 0 [0] [] = Inr []"
    by blast
  from es have e0: "es = [0]" by (simp add: edges_to_subdivide_mesh_e_g)
  note es0 = es [unfolded e0]
  note st0 = st [unfolded e0]
  note q1 = p1 [unfolded e0, THEN mp, OF a, THEN conjunct2, THEN conjunct1]
  note q3 = p3 [THEN mp, OF a [THEN conjunct1]]
  note q4 = p4 [THEN mp, OF z]
  have first: "decayed no_noise mesh_e 0 settings_g = Inr mesh_e_stepped \<and>
    0 < split_radius settings_g \<and>
    edges_to_subdivide no_noise mesh_e 0 settings_g = Inr [0] \<and>
    grow_step midpoint_subdivide no_noise mesh_e 0 settings_g
      = Inr (if [0::nat] = [] then mesh_e_stepped else midpoint_subdivide mesh_e_stepped [0]) \<and>
    length (verts (midpoint_subdivide mesh_e_stepped [0])) = 3 \<and>
    (0 \<in> set (snd (collect mesh_e 0)) \<and>
     get_vertex_weight mesh_e_stepped (fst (edges mesh_e ! 0)) 0 = 1 / 4 \<and>
     get_vertex_weight mesh_e_stepped (snd (edges mesh_e ! 0)) 0 = 1 / 4) \<and>
    calc_length mesh_e_stepped 0 = 2 \<and>
    (0 \<in> set [0::nat] \<longleftrightarrow>
       calc_length mesh_e_stepped 0 * (1 / 4) > split_radius settings_g) \<and>
    (\<exists>a. calc_avg_edge_weight mesh_e_stepped [0] 0 = Inr a \<and> 0 < a)"
    by (rule conjI [OF decayed_mesh_e_g conjI [OF sr conjI [OF es0 conjI [OF st0
          conjI [OF n conjI [OF a conjI [OF l conjI [OF q1 q3]]]]]]]])
  have sr2: "0 < split_radius settings_e" by (simp add: settings_e_def)
  have b2: "calc_length mesh_e_stepped 0 * (1 / 4) = split_radius settings_e"
    by (simp add: l settings_e_def)
  from subdivision_threshold [OF decayed_mesh_e sr2,
      where sub = midpoint_subdivide and e = 0 and W = "1 / 4" and w = 1 and l = 2
        and es' = "[0]" and bm' = mesh_c and g' = 0 and sr' = 0]
  obtain es2 where
    es2: "edges_to_subdivide no_noise mesh_e 0 settings_e = Inr es2" and
    r1: "0 \<in> set (snd (collect mesh_e 0)) \<and>
      get_vertex_weight mesh_e_stepped (fst (edges mesh_e ! 0)) 0 = 1 / 4 \<and>
      get_vertex_weight mesh_e_stepped (snd (edges mesh_e ! 0)) 0 = 1 / 4 \<longrightarrow>
        (0::real) < 1 / 4 \<and>
        (0 \<in> set es2 \<longleftrightarrow> calc_length mesh_e_stepped 0 * (1 / 4) > split_radius settings_e) \<and>
        (calc_length mesh_e_stepped 0 * (1 / 4) = split_radius settings_e \<longrightarrow> 0 \<notin> set es2)"
    by blast
  from es2 have e20: "es2 = []" by (simp add: edges_to_subdivide_mesh_e)
  note r2 = r1 [unfolded e20, THEN mp, OF a, THEN conjunct2, THEN conjunct2, THEN mp, OF b2]
  have second: "decayed no_noise mesh_e 0 settings_e = Inr mesh_e_stepped \<and>
    0 < split_radius settings_e \<and>
    edges_to_subdivide no_noise mesh_e 0 settings_e = Inr [] \<and>
    calc_length mesh_e_stepped 0 * (1 / 4) = split_radius settings_e \<and>
    (0::nat) \<notin> set []"
    by (rule conjI [OF decayed_mesh_e conjI [OF sr2
          conjI [OF edges_to_subdivide_mesh_e conjI [OF b2 r2]]]])
  show ?thesis
    by (rule conjI [OF first conjI [OF second conjI [OF z0 q4]]])
qed

subsection \<open>C4: repulsion as a sum over the indexed points\<close>

text \<open>
  Claim C4. For a collision radius \<open>r \<ge> 0\<close>, \<open>calc_vert_repulsion\<close> returns the sum, over
  the numbers \<open>i\<close> of the spatial index other than \<open>v\<close> itself whose point lies within
  \<open>2 * r\<close> of the position of \<open>v\<close>, of
  \<open>normalized (position v - point i) * exp (distance - r)\<close>. The vertex is left out by its
  number, not by its distance. A point at distance exactly \<open>r\<close> contributes its direction
  with factor 1, a vector of length 1 unless the point coincides with \<open>v\<close>.
  (A negative radius is refused by the spatial index.)
\<close>

theorem repulsion_is_sum:
  assumes "0 \<le> r"
  shows "calc_vert_repulsion bm v kd r =
       Inr (\<Sum>i \<in> {i. i < length kd \<and> i \<noteq> v \<and> vlen (kd ! i - co (verts bm ! v)) \<le> 2 * r}.
              smul (exp (vlen (kd ! i - co (verts bm ! v)) - r))
                   (normalized (co (verts bm ! v) - kd ! i))) \<and>
     (vlen (kd ! k - co (verts bm ! v)) = r \<longrightarrow>
        smul (exp (vlen (kd ! k - co (verts bm ! v)) - r)) (normalized (co (verts bm ! v) - kd ! k))
          = normalized (co (verts bm ! v) - kd ! k) \<and>
        (kd ! k \<noteq> co (verts bm ! v) \<longrightarrow> vlen (normalized (co (verts bm ! v) - kd ! k)) = 1))"
proof -
  have "vlen (normalized (co (verts bm ! v) - kd ! k)) = 1" if "kd ! k \<noteq> co (verts bm ! v)"
  proof -
    from that have "co (verts bm ! v) - kd ! k \<noteq> 0" by simp
    then show ?thesis by (rule vlen_normalized)
  qed
  with calc_vert_repulsion_sum [OF assms] show ?thesis by simp
qed

text \<open>On \<open>mesh_a\<close> with radius 1: the neighbour at distance 1 pushes vertex 0 by \<open>(-1, 0, 0)\<close>.\<close>

theorem repulsion_is_sum_witness:
  "(0::real) \<le> 1 \<and>
   calc_vert_repulsion mesh_a 0 (map co (verts mesh_a)) 1 = Inr (Vector (- 1) 0 0) \<and>
   calc_vert_repulsion mesh_a 0 (map co (verts mesh_a)) 1 =
       Inr (\<Sum>i \<in> {i. i < length (map co (verts mesh_a)) \<and> i \<noteq> 0 \<and>
                      vlen (map co (verts mesh_a) ! i - co (verts mesh_a ! 0)) \<le> 2 * 1}.
              smul (exp (vlen (map co (verts mesh_a) ! i - co (verts mesh_a ! 0)) - 1))
                   (normalized (co (verts mesh_a ! 0) - map co (verts mesh_a) ! i))) \<and>
   vlen (map co (verts mesh_a) ! 1 - co (verts mesh_a ! 0)) = 1 \<and>
   smul (exp (vlen (map co (verts mesh_a) ! 1 - co (verts mesh_a ! 0)) - 1))
        (normalized (co (verts mesh_a ! 0) - map co (verts mesh_a) ! 1))
     = normalized (co (verts mesh_a ! 0) - map co (verts mesh_a) ! 1) \<and>
   map co (verts mesh_a) ! 1 \<noteq> co (verts mesh_a ! 0) \<and>
   vlen (normalized (co (verts mesh_a ! 0) - map co (verts mesh_a) ! 1)) = 1"
proof -
  have h: "(0::real) \<le> 1" by simp
  have v: "calc_vert_repulsion mesh_a 0 (map co (verts mesh_a)) 1 = Inr (Vector (- 1) 0 0)"
    by (simp add: eval_defs example_defs)
  have d: "vlen (map co (verts mesh_a) ! 1 - co (verts mesh_a ! 0)) = 1"
    by (simp add: mesh_a_def vlen_def minus_vec_def)
  have ne: "map co (verts mesh_a) ! 1 \<noteq> co (verts mesh_a ! 0)"
    by (simp add: mesh_a_def)
  note c = repulsion_is_sum [OF h, of mesh_a 0 "map co (verts mesh_a)" 1]
  note c1 = c [THEN conjunct1]
  note c2 = c [THEN conjunct2, THEN mp, OF d]
  note c3 = c2 [THEN conjunct1]
  note c4 = c2 [THEN conjunct2, THEN mp, OF ne]
  show ?thesis
    by (rule conjI [OF h conjI [OF v conjI [OF c1 conjI [OF d conjI [OF c3
          conjI [OF ne c4]]]]]])
qed

subsection \<open>C5: a vertex of weight 0 is not moved by the force loop\<close>

text \<open>
  Claim C5. A vertex whose weight is exactly 0 at the start of the step has the same
  position after the force loop as before it.
\<close>

theorem inactive_vertex_not_moved:
  assumes "integrated nv bm g P = Inr bm1"
    and "i < length (verts bm)"
    and "get_vertex_weight bm i g = 0"
  shows "co (verts bm1 ! i) = co (verts bm ! i)"
  using integrated_frame(4) [OF assms(1), of i] assms(3) by simp

text \<open>On \<open>mesh_a\<close>, vertex 1 has no weight entry and stays at \<open>(1, 0, 0)\<close>.\<close>

theorem inactive_vertex_not_moved_witness:
  "integrated no_noise mesh_a 0 settings_a = Inr mesh_a_moved \<and>
   1 < length (verts mesh_a) \<and> get_vertex_weight mesh_a 1 0 = 0 \<and>
   co (verts mesh_a_moved ! 1) = co (verts mesh_a ! 1)"
proof -
  have h2: "1 < length (verts mesh_a)" by (simp add: mesh_a_def)
  have h3: "get_vertex_weight mesh_a 1 0 = 0" by (simp add: mesh_a_def get_vertex_weight_def)
  note c = inactive_vertex_not_moved [OF integrated_mesh_a h2 h3]
  show ?thesis
    by (rule conjI [OF integrated_mesh_a conjI [OF h2 conjI [OF h3 c]]])
qed

subsection \<open>C6: a step without active vertices\<close>

text \<open>
  Claim C6. When no vertex has positive weight at the start, the force loop changes nothing,
  no edge is selected, the subdivision primitive is not called, and the step is exactly the
  decay loop over all vertices: if it returns, the vertices and edges are those of the
  start, every position is unchanged and every weight is \<open>old ** weight_decay\<close>; if it
  raises, the error is the one of that power for some vertex, or the \<open>KeyError\<close> of a write
  under a negative group index.
\<close>

theorem no_active_vertices_only_decay:
  assumes "\<forall>v < length (verts bm). \<not> get_vertex_weight bm v g > 0"
  shows "integrated nv bm g P = Inr bm \<and>
     grow_step sub nv bm g P = readjust_weights g (weight_decay P) [0..<length (verts bm)] bm \<and>
     (case grow_step sub nv bm g P of
        Inr bm' \<Rightarrow>
          length (verts bm') = length (verts bm) \<and> edges bm' = edges bm \<and>
          edges_to_subdivide nv bm g P = Inr [] \<and>
          (\<forall>i < length (verts bm).
             co (verts bm' ! i) = co (verts bm ! i) \<and>
             py_pow (get_vertex_weight bm i g) (weight_decay P) = Inr (get_vertex_weight bm' i g))
      | Inl err \<Rightarrow>
          (\<exists>i < length (verts bm). py_pow (get_vertex_weight bm i g) (weight_decay P) = Inl err) \<or>
          (err = KeyError \<and> g < 0))"
proof -
  let ?r = "readjust_weights g (weight_decay P) [0..<length (verts bm)] bm"
  from assms have c: "collect bm g = ([], [])" by (rule collect_inactive)
  then have i: "integrated nv bm g P = Inr bm" by (simp add: integrated_def)
  then have d: "decayed nv bm g P = ?r" by (simp add: decayed_def)
  have e: "edges_to_subdivide nv bm g P = (case ?r of Inl err \<Rightarrow> Inl err | Inr bm2 \<Rightarrow> Inr [])"
    by (simp add: edges_to_subdivide_def d c split: sum.splits)
  have s: "grow_step sub nv bm g P = ?r"
    by (simp add: grow_step_def d c split: sum.splits)
  have "case ?r of
        Inr bm' \<Rightarrow>
          length (verts bm') = length (verts bm) \<and> edges bm' = edges bm \<and>
          edges_to_subdivide nv bm g P = Inr [] \<and>
          (\<forall>i < length (verts bm).
             co (verts bm' ! i) = co (verts bm ! i) \<and>
             py_pow (get_vertex_weight bm i g) (weight_decay P) = Inr (get_vertex_weight bm' i g))
      | Inl err \<Rightarrow>
          (\<exists>i < length (verts bm). py_pow (get_vertex_weight bm i g) (weight_decay P) = Inl err) \<or>
          (err = KeyError \<and> g < 0)"
  proof (cases ?r)
    case (Inl err)
    from readjust_weights_error [OF Inl] Inl show ?thesis by auto
  next
    case (Inr bm')
    have b: "\<forall>v \<in> set [0..<length (verts bm)]. v < length (verts bm)" by simp
    have "py_pow (get_vertex_weight bm i g) (weight_decay P) = Inr (get_vertex_weight bm' i g)"
      if i: "i < length (verts bm)" for i
    proof -
      from readjust_weights_decay [OF Inr _ b, of i] i obtain w where
        pw: "py_pow (get_vertex_weight bm i g) (weight_decay P) = Inr w" and
        st: "weights (verts bm' ! i) g = Some (clamp_weight w)" by auto
      from assms i have "get_vertex_weight bm i g \<le> 0" by (simp add: not_less)
      with get_vertex_weight_range(1) [of bm i g] have z: "get_vertex_weight bm i g = 0"
        by linarith
      from pw z have "min 1 (max 0 w) = w" by (simp add: py_pow_zero_base)
      with st have "get_vertex_weight bm' i g = w" by (simp add: get_vertex_weight_def)
      with pw show ?thesis by simp
    qed
    with readjust_weights_frame [OF Inr] Inr e show ?thesis by simp
  qed
  with i s show ?thesis by simp
qed

text \<open>On \<open>mesh_c\<close> both vertices end with the explicit weight 0 and nothing moves.\<close>

theorem no_active_vertices_only_decay_witness:
  "length (verts mesh_c) = 2 \<and>
   \<not> get_vertex_weight mesh_c 0 0 > 0 \<and> \<not> get_vertex_weight mesh_c 1 0 > 0 \<and>
   grow_step midpoint_subdivide no_noise mesh_c 0 settings_a = Inr mesh_c_stepped \<and>
   (integrated no_noise mesh_c 0 settings_a = Inr mesh_c \<and>
     grow_step midpoint_subdivide no_noise mesh_c 0 settings_a =
       readjust_weights 0 (weight_decay settings_a) [0..<length (verts mesh_c)] mesh_c \<and>
     (case grow_step midpoint_subdivide no_noise mesh_c 0 settings_a of
        Inr bm' \<Rightarrow>
          length (verts bm') = length (verts mesh_c) \<and> edges bm' = edges mesh_c \<and>
          edges_to_subdivide no_noise mesh_c 0 settings_a = Inr [] \<and>
          (\<forall>i < length (verts mesh_c).
             co (verts bm' ! i) = co (verts mesh_c ! i) \<and>
             py_pow (get_vertex_weight mesh_c i 0) (weight_decay settings_a)
               = Inr (get_vertex_weight bm' i 0))
      | Inl err \<Rightarrow>
          (\<exists>i < length (verts mesh_c).
             py_pow (get_vertex_weight mesh_c i 0) (weight_decay settings_a) = Inl err) \<or>
          (err = KeyError \<and> (0::int) < 0)))"
proof -
  have n: "length (verts mesh_c) = 2" by (simp add: mesh_c_def)
  have w0: "\<not> get_vertex_weight mesh_c 0 0 > 0"
    by (simp add: mesh_c_def get_vertex_weight_def)
  have w1: "\<not> get_vertex_weight mesh_c 1 0 > 0"
    by (simp add: mesh_c_def get_vertex_weight_def)
  have h: "\<forall>v < length (verts mesh_c). \<not> get_vertex_weight mesh_c v 0 > 0"
    using w0 w1 by (simp add: n less_Suc_eq numeral_2_eq_2)
  note c = no_active_vertices_only_decay
    [OF h, of no_noise settings_a midpoint_subdivide]
  show ?thesis
    by (rule conjI [OF n conjI [OF w0 conjI [OF w1 conjI [OF grow_step_mesh_c c]]]])
qed

subsection \<open>C7: when the step completes\<close>

text \<open>
  The step raises on well-formed input: with split radius 0 and an edge of non-zero
  average weight (\<open>l / split_radius\<close>), with a negative decay exponent and a vertex of
  weight 0 (\<open>0 ** -1\<close>), with a negative collision radius and an active vertex (the
  range query), and with the group index \<open>-1\<close> of an object without active vertex group
  (the write of the decay loop).
\<close>

theorem grow_step_raises:
  "grow_step midpoint_subdivide no_noise mesh_b 0 (settings_b\<lparr>split_radius := 0\<rparr>)
     = Inl ZeroDivisionError \<and>
   grow_step midpoint_subdivide no_noise mesh_a 0 (settings_a\<lparr>weight_decay := - 1\<rparr>)
     = Inl ZeroDivisionError \<and>
   grow_step midpoint_subdivide no_noise mesh_a 0 (settings_a\<lparr>collision_radius := - 1\<rparr>)
     = Inl RuntimeError \<and>
   grow_step midpoint_subdivide no_noise mesh_c (- 1) settings_a = Inl KeyError"
  by (simp add: eval_defs mesh_a_def mesh_b_def mesh_c_def settings_a_def settings_b_def)

text \<open>
  Claim C7, amended. For every mesh (with its deform layer, as every mesh of the model),
  a group index that is not negative and all settings in which the split radius is not 0,
  the collision radius is not negative and the decay exponent is not negative when some
  vertex has weight 0, one step returns a mesh.
\<close>

theorem grow_step_completes:
  assumes "0 \<le> g" and "split_radius P \<noteq> 0" and "0 \<le> collision_radius P"
    and "\<forall>i < length (verts bm). get_vertex_weight bm i g = 0 \<longrightarrow> 0 \<le> weight_decay P"
  shows "\<exists>bm'. grow_step sub nv bm g P = Inr bm'"
  using assms by (rule grow_step_total)

text \<open>\<open>mesh_a\<close> with its settings satisfies the conditions, and the step returns.\<close>

theorem grow_step_completes_witness:
  "(0::int) \<le> 0 \<and> split_radius settings_a \<noteq> 0 \<and> 0 \<le> collision_radius settings_a \<and>
   length (verts mesh_a) = 2 \<and> get_vertex_weight mesh_a 1 0 = 0 \<and>
   0 \<le> weight_decay settings_a \<and>
   (\<exists>bm'. grow_step midpoint_subdivide no_noise mesh_a 0 settings_a = Inr bm') \<and>
   grow_step midpoint_subdivide no_noise mesh_a 0 settings_a = Inr mesh_a_stepped"
proof -
  have h0: "(0::int) \<le> 0" by simp
  have h1: "split_radius settings_a \<noteq> 0" by (simp add: settings_a_def)
  have h2: "0 \<le> collision_radius settings_a" by (simp add: settings_a_def)
  have n: "length (verts mesh_a) = 2" by (simp add: mesh_a_def)
  have z: "get_vertex_weight mesh_a 1 0 = 0" by (simp add: mesh_a_def get_vertex_weight_def)
  have wd: "0 \<le> weight_decay settings_a" by (simp add: settings_a_def)
  have h3: "\<forall>i < length (verts mesh_a).
      get_vertex_weight mesh_a i 0 = 0 \<longrightarrow> 0 \<le> weight_decay settings_a"
    using wd by simp
  note c = grow_step_completes [OF h0 h1 h2 h3, of midpoint_subdivide no_noise]
  show ?thesis
    by (rule conjI [OF h0 conjI [OF h1 conjI [OF h2 conjI [OF n conjI [OF z conjI [OF wd
          conjI [OF c grow_step_mesh_a]]]]]]])
qed

subsection \<open>C8: a coincident point contributes nothing\<close>

text \<open>
  Claim C8. A point of the spatial index with a number other than \<open>v\<close> that lies exactly at
  the position of \<open>v\<close> adds the zero vector: its term is 0, the loop leaves the accumulator
  as it is when it meets such a hit, and the repulsion is the sum over the remaining points.
  This rests on \<open>normalized\<close> returning the zero vector for the zero vector.
\<close>

theorem coincident_point_contributes_zero:
  assumes r: "0 \<le> r" and j: "j < length kd" and ne: "j \<noteq> v"
    and co: "kd ! j = co (verts bm ! v)"
  shows "smul (exp (vlen (kd ! j - co (verts bm ! v)) - r))
              (normalized (co (verts bm ! v) - kd ! j)) = 0 \<and>
     repulsion_loop bm v r ((kd ! j, j, d) # hits) res = repulsion_loop bm v r hits res \<and>
     calc_vert_repulsion bm v kd r =
       Inr (\<Sum>i \<in> {i. i < length kd \<and> i \<noteq> v \<and> i \<noteq> j \<and>
                      vlen (kd ! i - co (verts bm ! v)) \<le> 2 * r}.
              smul (exp (vlen (kd ! i - co (verts bm ! v)) - r))
                   (normalized (co (verts bm ! v) - kd ! i)))"
proof -
  let ?c = "co (verts bm ! v)"
  let ?t = "\<lambda>i. smul (exp (vlen (kd ! i - ?c) - r)) (normalized (?c - kd ! i))"
  let ?S = "{i. i < length kd \<and> i \<noteq> v \<and> vlen (kd ! i - ?c) \<le> 2 * r}"
  let ?S' = "{i. i < length kd \<and> i \<noteq> v \<and> i \<noteq> j \<and> vlen (kd ! i - ?c) \<le> 2 * r}"
  from co have z: "?t j = 0" by simp
  from co ne have lp: "repulsion_loop bm v r ((kd ! j, j, d) # hits) res
      = repulsion_loop bm v r hits res" by (simp add: Let_def)
  from co r j ne have eq: "?S = insert j ?S'" by auto
  have fin: "finite ?S'" by simp
  have nin: "j \<notin> ?S'" by simp
  have "sum ?t (insert j ?S') = ?t j + sum ?t ?S'"
    using fin nin by (rule sum.insert)
  with eq have "sum ?t ?S = ?t j + sum ?t ?S'" by simp
  with z have "sum ?t ?S = sum ?t ?S'" by simp
  with calc_vert_repulsion_sum [OF r, of bm v kd] have
    "calc_vert_repulsion bm v kd r = Inr (sum ?t ?S')" by simp
  with z lp show ?thesis by simp
qed

text \<open>On \<open>mesh_d\<close> vertex 1 sits on vertex 0.\<close>

theorem coincident_point_contributes_zero_witness:
  "(0::real) \<le> 1 \<and> 1 < length (map co (verts mesh_d)) \<and> (1::nat) \<noteq> 0 \<and>
   map co (verts mesh_d) ! 1 = co (verts mesh_d ! 0) \<and>
   (smul (exp (vlen (map co (verts mesh_d) ! 1 - co (verts mesh_d ! 0)) - 1))
         (normalized (co (verts mesh_d ! 0) - map co (verts mesh_d) ! 1)) = 0 \<and>
    repulsion_loop mesh_d 0 1 ((map co (verts mesh_d) ! 1, 1, 0) # []) 0
      = repulsion_loop mesh_d 0 1 [] 0 \<and>
    calc_vert_repulsion mesh_d 0 (map co (verts mesh_d)) 1 =
      Inr (\<Sum>i \<in> {i. i < length (map co (verts mesh_d)) \<and> i \<noteq> 0 \<and> i \<noteq> 1 \<and>
                     vlen (map co (verts mesh_d) ! i - co (verts mesh_d ! 0)) \<le> 2 * 1}.
             smul (exp (vlen (map co (verts mesh_d) ! i - co (verts mesh_d ! 0)) - 1))
                  (normalized (co (verts mesh_d ! 0) - map co (verts mesh_d) ! i))))"
proof -
  have h1: "(0::real) \<le> 1" by simp
  have h2: "1 < length (map co (verts mesh_d))" by (simp add: mesh_d_def)
  have h3: "(1::nat) \<noteq> 0" by simp
  have h4: "map co (verts mesh_d) ! 1 = co (verts mesh_d ! 0)" by (simp add: mesh_d_def)
  note c = coincident_point_contributes_zero [OF h1 h2 h3 h4, of 0 "[]" 0]
  show ?thesis
    by (rule conjI [OF h1 conjI [OF h2 conjI [OF h3 conjI [OF h4 c]]]])
qed

subsection \<open>C9: the selection reads the decayed weights\<close>

text \<open>
  The average the selection compares against is not always that of the plain powers: on
  \<open>mesh_h\<close> both weights one half have the power 2 under the exponent \<open>-1\<close>, and with the
  average 2 the test \<open>1 / 1 > 1 / 2\<close> would select the edge; the stored weights are 1, the
  test is \<open>1 / 1 > 1 / 1\<close>, and the edge is not selected.
\<close>

theorem selection_average_not_plain_power:
  "integrated no_noise mesh_h 0 settings_h = Inr mesh_h \<and>
   edges_to_subdivide no_noise mesh_h 0 settings_h = Inr [] \<and>
   0 \<in> set (snd (collect mesh_h 0)) \<and> edges mesh_h ! 0 = (0, 1) \<and>
   py_pow (get_vertex_weight mesh_h 0 0) (weight_decay settings_h) = Inr 2 \<and>
   py_pow (get_vertex_weight mesh_h 1 0) (weight_decay settings_h) = Inr 2 \<and>
   (2 + 2) / 2 \<noteq> (0::real) \<and>
   vlen (co (verts mesh_h ! 0) - co (verts mesh_h ! 1)) / split_radius settings_h
     > 1 / ((2 + 2) / 2)"
  by (simp add: integrated_mesh_h edges_to_subdivide_mesh_h collect_mesh_h)
     (simp add: mesh_h_def settings_h_def get_vertex_weight_def py_pow_def powr_minus
        vlen_def minus_vec_def)

text \<open>
  Claim C9, amended. For a considered edge \<open>(a, b)\<close> of a well-formed mesh, the selection
  compares against the average of the weights after the decay loop, which are
  \<open>old_a ** weight_decay\<close> and \<open>old_b ** weight_decay\<close> clamped to the range from 0 to 1, and
  uses the distance of the endpoints after the force loop. For an exponent that is not
  negative nothing is clamped and the average is that of the two powers.
\<close>

theorem subdivision_reads_decayed_weights:
  assumes int: "integrated nv bm g P = Inr bm1"
    and sub: "edges_to_subdivide nv bm g P = Inr sub"
    and wf: "wf_mesh bm"
    and e: "e \<in> set (snd (collect bm g))"
    and ab: "edges bm ! e = (a, b)"
  shows "\<exists>pa pb.
      py_pow (get_vertex_weight bm a g) (weight_decay P) = Inr pa \<and>
      py_pow (get_vertex_weight bm b g) (weight_decay P) = Inr pb \<and>
      (e \<in> set sub \<longleftrightarrow>
         (min 1 (max 0 pa) + min 1 (max 0 pb)) / 2 \<noteq> 0 \<and>
         vlen (co (verts bm1 ! a) - co (verts bm1 ! b)) / split_radius P
           > 1 / ((min 1 (max 0 pa) + min 1 (max 0 pb)) / 2)) \<and>
      (0 \<le> weight_decay P \<longrightarrow>
         (e \<in> set sub \<longleftrightarrow>
            (pa + pb) / 2 \<noteq> 0 \<and>
            vlen (co (verts bm1 ! a) - co (verts bm1 ! b)) / split_radius P
              > 1 / ((pa + pb) / 2)))"
proof -
  from sub obtain bm2 where run: "decayed nv bm g P = Inr bm2"
    and sel: "select_edges bm2 g (split_radius P) (snd (collect bm g)) [] = Inr sub"
    by (auto simp: edges_to_subdivide_def split: sum.splits)
  have ed: "edges bm2 = edges bm" by (rule decayed_frame(2) [OF run int])
  from e have "e < length (edges bm)" by (auto simp: snd_collect_iff link_edges_iff)
  then have "edges bm ! e \<in> set (edges bm)" by simp
  with wf ab have a: "a < length (verts bm)" and b: "b < length (verts bm)"
    by (auto simp: wf_mesh_def)
  from decayed_weight [OF run a] obtain pa where
    pa: "py_pow (get_vertex_weight bm a g) (weight_decay P) = Inr pa"
        "get_vertex_weight bm2 a g = min 1 (max 0 pa)" by blast
  from decayed_weight [OF run b] obtain pb where
    pb: "py_pow (get_vertex_weight bm b g) (weight_decay P) = Inr pb"
        "get_vertex_weight bm2 b g = min 1 (max 0 pb)" by blast
  let ?ca = "min 1 (max 0 pa)" and ?cb = "min 1 (max 0 pb)"
  have len: "calc_length bm2 e = vlen (co (verts bm1 ! a) - co (verts bm1 ! b))"
    by (simp add: calc_length_def ed ab decayed_frame(3) [OF run int])
  have avg: "calc_avg_edge_weight bm2 [e] g = Inr ((?ca + ?cb) / 2)"
    by (simp add: calc_avg_edge_weight_single ed ab pa(2) pb(2))
  have "e \<in> set sub \<longleftrightarrow>
      (\<exists>x. calc_avg_edge_weight bm2 [e] g = Inr x \<and> x \<noteq> 0 \<and>
           exceeds_threshold (calc_length bm2 e) (split_radius P) x)"
    using select_edges_set [OF sel] e by simp
  also have "\<dots> \<longleftrightarrow> (?ca + ?cb) / 2 \<noteq> 0 \<and>
      exceeds_threshold (calc_length bm2 e) (split_radius P) ((?ca + ?cb) / 2)"
    unfolding avg sum.inject by blast
  finally have clamped: "e \<in> set sub \<longleftrightarrow> (?ca + ?cb) / 2 \<noteq> 0 \<and>
       vlen (co (verts bm1 ! a) - co (verts bm1 ! b)) / split_radius P > 1 / ((?ca + ?cb) / 2)"
    unfolding exceeds_threshold_def len .
  have plain: "e \<in> set sub \<longleftrightarrow> (pa + pb) / 2 \<noteq> 0 \<and>
       vlen (co (verts bm1 ! a) - co (verts bm1 ! b)) / split_radius P > 1 / ((pa + pb) / 2)"
    if wd: "0 \<le> weight_decay P"
  proof -
    from py_pow_unit [OF get_vertex_weight_range wd pa(1)] have "?ca = pa" by simp
    moreover from py_pow_unit [OF get_vertex_weight_range wd pb(1)] have "?cb = pb" by simp
    ultimately show ?thesis using clamped by simp
  qed
  from pa(1) pb(1) clamped plain show ?thesis by blast
qed

text \<open>
  On \<open>mesh_e\<close> (weights one half, exponent 2, length 2, split radius one half) the edge is
  not selected: \<open>2 / (1/2) = 4\<close> is not above \<open>1 / (1/4) = 4\<close>. With the weights of the start
  it would have been: \<open>4 > 1 / (1/2) = 2\<close>.
\<close>

theorem subdivision_reads_decayed_weights_witness:
  "integrated no_noise mesh_e 0 settings_e = Inr mesh_e \<and>
   edges_to_subdivide no_noise mesh_e 0 settings_e = Inr [] \<and>
   wf_mesh mesh_e \<and> 0 \<in> set (snd (collect mesh_e 0)) \<and> edges mesh_e ! 0 = (0, 1) \<and>
   (\<exists>pa pb.
      py_pow (get_vertex_weight mesh_e 0 0) (weight_decay settings_e) = Inr pa \<and>
      py_pow (get_vertex_weight mesh_e 1 0) (weight_decay settings_e) = Inr pb \<and>
      ((0::nat) \<in> set [] \<longleftrightarrow>
         (min 1 (max 0 pa) + min 1 (max 0 pb)) / 2 \<noteq> 0 \<and>
         vlen (co (verts mesh_e ! 0) - co (verts mesh_e ! 1)) / split_radius settings_e
           > 1 / ((min 1 (max 0 pa) + min 1 (max 0 pb)) / 2)) \<and>
      (0 \<le> weight_decay settings_e \<longrightarrow>
         ((0::nat) \<in> set [] \<longleftrightarrow>
            (pa + pb) / 2 \<noteq> 0 \<and>
            vlen (co (verts mesh_e ! 0) - co (verts mesh_e ! 1)) / split_radius settings_e
              > 1 / ((pa + pb) / 2)))) \<and>
   py_pow (get_vertex_weight mesh_e 0 0) (weight_decay settings_e) = Inr (1 / 4) \<and>
   get_vertex_weight mesh_e 0 0 = 1 / 2 \<and>
   vlen (co (verts mesh_e ! 0) - co (verts mesh_e ! 1)) / split_radius settings_e = 4"
proof -
  have wf: "wf_mesh mesh_e" by (simp add: wf_mesh_def mesh_e_def)
  have e: "0 \<in> set (snd (collect mesh_e 0))" by (simp add: collect_mesh_e)
  have ab: "edges mesh_e ! 0 = (0, 1)" by (simp add: mesh_e_def)
  have pw: "py_pow (get_vertex_weight mesh_e 0 0) (weight_decay settings_e) = Inr (1 / 4)"
    by (simp add: mesh_e_def settings_e_def get_vertex_weight_def py_pow_def power2_eq_square)
  have w: "get_vertex_weight mesh_e 0 0 = 1 / 2"
    by (simp add: mesh_e_def get_vertex_weight_def)
  have l: "vlen (co (verts mesh_e ! 0) - co (verts mesh_e ! 1)) / split_radius settings_e = 4"
    by (simp add: mesh_e_def settings_e_def vlen_def minus_vec_def)
  note c = subdivision_reads_decayed_weights
    [OF integrated_mesh_e edges_to_subdivide_mesh_e wf e ab]
  show ?thesis
    by (rule conjI [OF integrated_mesh_e conjI [OF edges_to_subdivide_mesh_e
          conjI [OF wf conjI [OF e conjI [OF ab conjI [OF c conjI [OF pw conjI [OF w l]]]]]]]])
qed

subsection \<open>C10: every vertex has an explicit entry after the step\<close>

text \<open>
  The stored entry is not always \<open>old ** weight_decay\<close>: on \<open>mesh_h\<close> the power is 2 and
  the entry stored for vertex 0 has the value 1.
\<close>

theorem stored_entry_not_plain_power:
  "grow_step midpoint_subdivide no_noise mesh_h 0 settings_h = Inr mesh_h_stepped \<and>
   py_pow (get_vertex_weight mesh_h 0 0) (weight_decay settings_h) = Inr 2 \<and>
   weights (verts mesh_h_stepped ! 0) 0 = Some (clamp_weight 2) \<and>
   weight_val (clamp_weight 2) = 1 \<and> weight_val (clamp_weight 2) \<noteq> 2"
  by (simp add: grow_step_mesh_h)
     (simp add: mesh_h_def mesh_h_stepped_def settings_h_def get_vertex_weight_def py_pow_def
        powr_minus)

text \<open>
  Claim C10, amended. If the step returns, every vertex of the mesh at the start has an
  entry for the group index afterwards, holding \<open>old ** weight_decay\<close> clamped to the range
  from 0 to 1. In particular a vertex that had no entry (read as weight 0) has the stored
  entry 0 when the exponent is positive. The subdivision primitive is assumed to leave the
  weight entries of the existing vertices alone.
\<close>

theorem explicit_entry_after_step:
  assumes "grow_step sub nv bm g P = Inr bm'"
    and "preserves_weights sub"
    and "i < length (verts bm)"
  shows "(\<exists>w. py_pow (get_vertex_weight bm i g) (weight_decay P) = Inr w \<and>
              weights (verts bm' ! i) g = Some (clamp_weight w)) \<and>
         (weights (verts bm ! i) g = None \<and> 0 < weight_decay P \<longrightarrow>
            get_vertex_weight bm i g = 0 \<and> weights (verts bm' ! i) g = Some (clamp_weight 0))"
proof -
  from grow_step_old_weights [OF assms] obtain bm2 where
    d: "decayed nv bm g P = Inr bm2" and
    same: "weights (verts bm' ! i) = weights (verts bm2 ! i)" by blast
  from decayed_weight [OF d assms(3)] same obtain w where
    pw: "py_pow (get_vertex_weight bm i g) (weight_decay P) = Inr w" and
    en: "weights (verts bm' ! i) g = Some (clamp_weight w)" by auto
  have "weights (verts bm ! i) g = None \<and> 0 < weight_decay P \<longrightarrow>
      get_vertex_weight bm i g = 0 \<and> weights (verts bm' ! i) g = Some (clamp_weight 0)"
  proof
    assume h: "weights (verts bm ! i) g = None \<and> 0 < weight_decay P"
    then have z: "get_vertex_weight bm i g = 0" by (simp add: get_vertex_weight_def)
    with pw h have "w = 0" by (simp add: py_pow_def)
    with en z show "get_vertex_weight bm i g = 0 \<and>
        weights (verts bm' ! i) g = Some (clamp_weight 0)" by simp
  qed
  with pw en show ?thesis by blast
qed

text \<open>
  On \<open>mesh_a\<close>, vertex 1 had no entry and ends with the entry 0. On \<open>mesh_e\<close>, in a step
  that subdivides, the entry one half of vertex 0 becomes one quarter.
\<close>

theorem explicit_entry_after_step_witness:
  "(grow_step midpoint_subdivide no_noise mesh_a 0 settings_a = Inr mesh_a_stepped \<and>
    preserves_weights midpoint_subdivide \<and> 1 < length (verts mesh_a) \<and>
    (weights (verts mesh_a ! 1) 0 = None \<and> 0 < weight_decay settings_a) \<and>
    (\<exists>w. py_pow (get_vertex_weight mesh_a 1 0) (weight_decay settings_a) = Inr w \<and>
         weights (verts mesh_a_stepped ! 1) 0 = Some (clamp_weight w)) \<and>
    (get_vertex_weight mesh_a 1 0 = 0 \<and>
     weights (verts mesh_a_stepped ! 1) 0 = Some (clamp_weight 0)) \<and>
    weight_val (clamp_weight 0) = 0) \<and>
   (grow_step midpoint_subdivide no_noise mesh_e 0 settings_g
      = Inr (midpoint_subdivide mesh_e_stepped [0]) \<and>
    0 < length (verts mesh_e) \<and>
    weights (verts mesh_e ! 0) 0 = Some (clamp_weight (1 / 2)) \<and>
    py_pow (get_vertex_weight mesh_e 0 0) (weight_decay settings_g) = Inr (1 / 4) \<and>
    weights (verts (midpoint_subdivide mesh_e_stepped [0]) ! 0) 0 = Some (clamp_weight (1 / 4)) \<and>
    (\<exists>w. py_pow (get_vertex_weight mesh_e 0 0) (weight_decay settings_g) = Inr w \<and>
         weights (verts (midpoint_subdivide mesh_e_stepped [0]) ! 0) 0 = Some (clamp_weight w)))"
proof -
  have h3: "1 < length (verts mesh_a)" by (simp add: mesh_a_def)
  have p: "weights (verts mesh_a ! 1) 0 = None \<and> 0 < weight_decay settings_a"
    by (simp add: mesh_a_def settings_a_def)
  have z: "weight_val (clamp_weight 0) = 0" by simp
  note c = explicit_entry_after_step
    [OF grow_step_mesh_a midpoint_subdivide_preserves_weights h3]
  note c1 = c [THEN conjunct1]
  note c2 = c [THEN conjunct2, THEN mp, OF p]
  have first: "grow_step midpoint_subdivide no_noise mesh_a 0 settings_a = Inr mesh_a_stepped \<and>
    preserves_weights midpoint_subdivide \<and> 1 < length (verts mesh_a) \<and>
    (weights (verts mesh_a ! 1) 0 = None \<and> 0 < weight_decay settings_a) \<and>
    (\<exists>w. py_pow (get_vertex_weight mesh_a 1 0) (weight_decay settings_a) = Inr w \<and>
         weights (verts mesh_a_stepped ! 1) 0 = Some (clamp_weight w)) \<and>
    (get_vertex_weight mesh_a 1 0 = 0 \<and>
     weights (verts mesh_a_stepped ! 1) 0 = Some (clamp_weight 0)) \<and>
    weight_val (clamp_weight 0) = 0"
    by (rule conjI [OF grow_step_mesh_a
          conjI [OF midpoint_subdivide_preserves_weights
            conjI [OF h3 conjI [OF p conjI [OF c1 conjI [OF c2 z]]]]]])
  have k3: "0 < length (verts mesh_e)" by (simp add: mesh_e_def)
  have o: "weights (verts mesh_e ! 0) 0 = Some (clamp_weight (1 / 2))"
    by (simp add: mesh_e_def)
  have pw: "py_pow (get_vertex_weight mesh_e 0 0) (weight_decay settings_g) = Inr (1 / 4)"
    by (simp add: mesh_e_def settings_g_def get_vertex_weight_def py_pow_def power2_eq_square)
  have en: "weights (verts (midpoint_subdivide mesh_e_stepped [0]) ! 0) 0
      = Some (clamp_weight (1 / 4))"
    by (simp add: mesh_e_stepped_def Let_def)
  note d = explicit_entry_after_step
    [OF grow_step_mesh_e_g midpoint_subdivide_preserves_weights k3]
  note d1 = d [THEN conjunct1]
  show ?thesis
    by (rule conjI [OF first conjI [OF grow_step_mesh_e_g conjI [OF k3 conjI [OF o
          conjI [OF pw conjI [OF en d1]]]]]])
qed

end
